theory Spec2Isabelle
  imports Complex_Main
begin

section \<open>Tensors of the torch library, as far as norm.py uses them\<close>

text \<open>
  The module \<^verbatim>\<open>llava/model/language_model/mpt/norm.py\<close> works on torch tensors. A tensor
  is modelled by what the module reads and computes: its floating dtype, its device, its
  shape, and its values, kept as the list of its trailing-dimension slices in row-major
  order. A tensor of shape \<open>[2, 4]\<close> has two slices of four values, a one-dimensional
  tensor such as a layer's weight has one slice, and a zero-dimensional tensor (shape
  \<open>[]\<close>) has one slice of one value.
\<close>

datatype dtype = Float16 | BFloat16 | Float32 | Float64

record device =
  dev_type :: string
  dev_index :: nat

text \<open>A floating-point value: a finite number, an infinity, or not-a-number.\<close>

datatype fval = Fin real | PInf | NInf | NaN

fun is_fin :: "fval \<Rightarrow> bool" where
  "is_fin (Fin a) = True"
| "is_fin PInf = False"
| "is_fin NInf = False"
| "is_fin NaN = False"

record tensor =
  dtype :: dtype
  device :: device
  shape :: "nat list"
  rows :: "fval list list"

datatype error = NotImplementedError | RuntimeError

text \<open>The leading dimensions of a shape, and the size of its trailing dimension.\<close>

definition lead :: "nat list \<Rightarrow> nat list" where
  "lead sh = butlast sh"

definition width :: "nat list \<Rightarrow> nat" where
  "width sh = (if sh = [] then 1 else last sh)"

text \<open>The values of a tensor fill its shape.\<close>

definition wf_tensor :: "tensor \<Rightarrow> bool" where
  "wf_tensor t =
     (length (rows t) = prod_list (lead (shape t)) \<and>
      list_all (\<lambda>r. length r = width (shape t)) (rows t))"

subsection \<open>Rounding into a dtype\<close>

text \<open>
  The binary formats: \<open>prec\<close> is the number of significand bits (hidden bit included),
  \<open>emin\<close> and \<open>emax\<close> the least and greatest exponent of a normal number.
\<close>

fun prec :: "dtype \<Rightarrow> int" where
  "prec Float16 = 11"
| "prec BFloat16 = 8"
| "prec Float32 = 24"
| "prec Float64 = 53"

fun emin :: "dtype \<Rightarrow> int" where
  "emin Float16 = - 14"
| "emin BFloat16 = - 126"
| "emin Float32 = - 126"
| "emin Float64 = - 1022"

fun emax :: "dtype \<Rightarrow> int" where
  "emax Float16 = 15"
| "emax BFloat16 = 127"
| "emax Float32 = 127"
| "emax Float64 = 1023"

text \<open>Round to the nearest integer, a tie to the even one.\<close>

definition rne :: "real \<Rightarrow> int" where
  "rne x =
     (let f = \<lfloor>x\<rfloor> in
      if x - of_int f < 1 / 2 then f
      else if 1 / 2 < x - of_int f then f + 1
      else if even f then f else f + 1)"

text \<open>
  The exponent of the unit in the last place at \<open>r\<close>: that of the binade of \<open>r\<close>, and that
  of the subnormal numbers below \<open>2 ^ emin\<close>.
\<close>

definition ulp_exp :: "dtype \<Rightarrow> real \<Rightarrow> int" where
  "ulp_exp d r = max (emin d) \<lfloor>log 2 \<bar>r\<bar>\<rfloor> - (prec d - 1)"

text \<open>
  Round-to-nearest-even of a real number into the dtype \<open>d\<close>: a multiple of the unit in the
  last place, zero when \<open>r\<close> underflows, an infinity when the rounded value leaves the range.
\<close>

definition rnd :: "dtype \<Rightarrow> real \<Rightarrow> fval" where
  "rnd d r =
     (if r = 0 then Fin 0
      else
        (let u = 2 powr of_int (ulp_exp d r);
             v = of_int (rne (r / u)) * u
         in if 2 powr of_int (emax d + 1) \<le> \<bar>v\<bar> then (if 0 < r then PInf else NInf)
            else Fin v))"

text \<open>Rounding a value that a dtype holds into another dtype.\<close>

fun rnd_val :: "dtype \<Rightarrow> fval \<Rightarrow> fval" where
  "rnd_val d (Fin a) = rnd d a"
| "rnd_val d PInf = PInf"
| "rnd_val d NInf = NInf"
| "rnd_val d NaN = NaN"

text \<open>
  The type torch computes in: float32 for the two 16-bit dtypes and for float32, float64
  for float64. A kernel on a 16-bit tensor computes in float32 and stores the float32
  result into the 16-bit dtype, which rounds a second time.
\<close>

fun opmath :: "dtype \<Rightarrow> dtype" where
  "opmath Float16 = Float32"
| "opmath BFloat16 = Float32"
| "opmath Float32 = Float32"
| "opmath Float64 = Float64"

definition store :: "dtype \<Rightarrow> real \<Rightarrow> fval" where
  "store d r = (if opmath d = d then rnd d r else rnd_val d (rnd (opmath d) r))"

text \<open>
  The conversion of a value of dtype \<open>src\<close> into dtype \<open>dst\<close>: torch converts a float64 to
  a 16-bit dtype through float32.
\<close>

definition cast_val :: "dtype \<Rightarrow> dtype \<Rightarrow> fval \<Rightarrow> fval" where
  "cast_val src dst v =
     (if src = Float64 \<and> opmath dst \<noteq> dst then rnd_val dst (rnd_val Float32 v)
      else rnd_val dst v)"

subsection \<open>Elementwise kernels\<close>

text \<open>
  Each kernel computes on the values of a tensor and stores its result into the dtype \<open>d\<close>
  of the result; on infinities and NaN it follows IEEE 754. Signed zeros are not
  distinguished. The kernels are a reference arithmetic: each result is the exact one,
  rounded. Torch's own \<^verbatim>\<open>rsqrt\<close> and \<^verbatim>\<open>mean\<close> can differ from it in the last bits (and
  \<^verbatim>\<open>mean\<close>, which adds in the compute type in an order of its own, can overflow earlier),
  so nothing below is read off those bits: what is used is that zero is exact, that a
  rounded positive number is not negative, and where a result is finite.
\<close>

fun k_mul :: "dtype \<Rightarrow> fval \<Rightarrow> fval \<Rightarrow> fval" where
  "k_mul d (Fin a) (Fin b) = store d (a * b)"
| "k_mul d (Fin a) PInf = (if a = 0 then NaN else if 0 < a then PInf else NInf)"
| "k_mul d (Fin a) NInf = (if a = 0 then NaN else if 0 < a then NInf else PInf)"
| "k_mul d PInf (Fin b) = (if b = 0 then NaN else if 0 < b then PInf else NInf)"
| "k_mul d NInf (Fin b) = (if b = 0 then NaN else if 0 < b then NInf else PInf)"
| "k_mul d PInf PInf = PInf"
| "k_mul d PInf NInf = NInf"
| "k_mul d NInf PInf = NInf"
| "k_mul d NInf NInf = PInf"
| "k_mul d NaN y = NaN"
| "k_mul d x NaN = NaN"

text \<open>
  Adding a Python float \<open>s\<close> (a finite number) to a value: the scalar is first converted
  into the type torch computes in.
\<close>

fun add_fval :: "dtype \<Rightarrow> fval \<Rightarrow> fval \<Rightarrow> fval" where
  "add_fval d (Fin a) (Fin b) = store d (a + b)"
| "add_fval d NaN y = NaN"
| "add_fval d x NaN = NaN"
| "add_fval d PInf NInf = NaN"
| "add_fval d NInf PInf = NaN"
| "add_fval d PInf y = PInf"
| "add_fval d x PInf = PInf"
| "add_fval d NInf y = NInf"
| "add_fval d x NInf = NInf"

definition k_add_scalar :: "dtype \<Rightarrow> fval \<Rightarrow> real \<Rightarrow> fval" where
  "k_add_scalar d v s = add_fval d v (rnd (opmath d) s)"

fun k_pow :: "dtype \<Rightarrow> fval \<Rightarrow> nat \<Rightarrow> fval" where
  "k_pow d (Fin a) n = store d (a ^ n)"
| "k_pow d PInf n = (if n = 0 then Fin 1 else PInf)"
| "k_pow d NInf n = (if n = 0 then Fin 1 else if even n then PInf else NInf)"
| "k_pow d NaN n = (if n = 0 then Fin 1 else NaN)"

fun k_rsqrt :: "dtype \<Rightarrow> fval \<Rightarrow> fval" where
  "k_rsqrt d (Fin a) = (if a < 0 then NaN else if a = 0 then PInf else store d (1 / sqrt a))"
| "k_rsqrt d PInf = Fin 0"
| "k_rsqrt d NInf = NaN"
| "k_rsqrt d NaN = NaN"

fun fin_val :: "fval \<Rightarrow> real" where
  "fin_val (Fin a) = a"
| "fin_val PInf = 0"
| "fin_val NInf = 0"
| "fin_val NaN = 0"

text \<open>The mean of a slice; of an empty slice it is NaN (zero divided by zero).\<close>

definition k_mean :: "dtype \<Rightarrow> fval list \<Rightarrow> fval" where
  "k_mean d xs =
     (if xs = [] then NaN
      else if NaN \<in> set xs \<or> (PInf \<in> set xs \<and> NInf \<in> set xs) then NaN
      else if PInf \<in> set xs then PInf
      else if NInf \<in> set xs then NInf
      else store d (sum_list (map fin_val xs) / real (length xs)))"

subsection \<open>Tensor operations\<close>

text \<open>
  \<^verbatim>\<open>torch.promote_types\<close> on the floating dtypes: the wider of the two, and float32 for
  the two 16-bit formats, neither of which holds the other.
\<close>

fun promote_types :: "dtype \<Rightarrow> dtype \<Rightarrow> dtype" where
  "promote_types Float64 b = Float64"
| "promote_types a Float64 = Float64"
| "promote_types Float32 b = Float32"
| "promote_types a Float32 = Float32"
| "promote_types Float16 Float16 = Float16"
| "promote_types BFloat16 BFloat16 = BFloat16"
| "promote_types Float16 BFloat16 = Float32"
| "promote_types BFloat16 Float16 = Float32"

text \<open>
  The dtype of the result of a binary operation on two floating tensors: a
  zero-dimensional operand does not change the dtype of one that has dimensions.
\<close>

definition result_type :: "tensor \<Rightarrow> tensor \<Rightarrow> dtype" where
  "result_type a b =
     (if (shape a = []) = (shape b = []) then promote_types (dtype a) (dtype b)
      else if shape a = [] then dtype b
      else dtype a)"

text \<open>\<^verbatim>\<open>tensor.to(dtype=d)\<close>: the tensor itself when it has the dtype already.\<close>

definition Tensor_to :: "dtype \<Rightarrow> tensor \<Rightarrow> tensor" where
  "Tensor_to d t =
     (if dtype t = d then t
      else t\<lparr>dtype := d, rows := map (map (cast_val (dtype t) d)) (rows t)\<rparr>)"

text \<open>\<^verbatim>\<open>tensor.float()\<close> is \<^verbatim>\<open>tensor.to(torch.float32)\<close>.\<close>

definition Tensor_float :: "tensor \<Rightarrow> tensor" where
  "Tensor_float t = Tensor_to Float32 t"

text \<open>\<^verbatim>\<open>x.pow(n)\<close>, elementwise.\<close>

definition Tensor_pow :: "tensor \<Rightarrow> nat \<Rightarrow> tensor" where
  "Tensor_pow x n = x\<lparr>rows := map (map (\<lambda>v. k_pow (dtype x) v n)) (rows x)\<rparr>"

text \<open>
  \<^verbatim>\<open>x.mean(-1, keepdim=True)\<close>: every slice becomes the one-element slice of its mean,
  and the trailing dimension becomes 1 (a zero-dimensional tensor stays so).
\<close>

definition keepdim_shape :: "nat list \<Rightarrow> nat list" where
  "keepdim_shape sh = (if sh = [] then [] else lead sh @ [1])"

definition Tensor_mean_keepdim :: "tensor \<Rightarrow> tensor" where
  "Tensor_mean_keepdim x =
     x\<lparr>shape := keepdim_shape (shape x), rows := map (\<lambda>r. [k_mean (dtype x) r]) (rows x)\<rparr>"

text \<open>\<^verbatim>\<open>x + s\<close> for a Python float \<open>s\<close>: the dtype of \<open>x\<close> is kept.\<close>

definition Tensor_add_scalar :: "tensor \<Rightarrow> real \<Rightarrow> tensor" where
  "Tensor_add_scalar x s = x\<lparr>rows := map (map (\<lambda>v. k_add_scalar (dtype x) v s)) (rows x)\<rparr>"

definition torch_rsqrt :: "tensor \<Rightarrow> tensor" where
  "torch_rsqrt x = x\<lparr>rows := map (map (k_rsqrt (dtype x))) (rows x)\<rparr>"

text \<open>
  Broadcasting of shapes: the dimensions are matched from the last one on; two sizes
  match when they are equal or one of them is 1, and a missing dimension counts as 1.
\<close>

definition broadcast_dim :: "nat \<Rightarrow> nat \<Rightarrow> nat option" where
  "broadcast_dim m n =
     (if m = n then Some m else if n = 1 then Some m else if m = 1 then Some n else None)"

fun broadcast_rev :: "nat list \<Rightarrow> nat list \<Rightarrow> nat list option" where
  "broadcast_rev [] ys = Some ys"
| "broadcast_rev xs [] = Some xs"
| "broadcast_rev (x # xs) (y # ys) =
     (case broadcast_dim x y of
        None \<Rightarrow> None
      | Some d \<Rightarrow> (case broadcast_rev xs ys of None \<Rightarrow> None | Some ds \<Rightarrow> Some (d # ds)))"

definition broadcast_shapes :: "nat list \<Rightarrow> nat list \<Rightarrow> nat list option" where
  "broadcast_shapes a b = map_option rev (broadcast_rev (rev a) (rev b))"

text \<open>
  The slices of a tensor with leading dimensions \<open>src\<close>, repeated to fill the leading
  dimensions \<open>dst\<close> of the broadcast shape: a dimension that \<open>src\<close> lacks, or has with size
  1, repeats what is below it; a dimension of the same size goes through its parts.
\<close>

fun expand :: "nat list \<Rightarrow> nat list \<Rightarrow> 'a list \<Rightarrow> 'a list" where
  "expand src [] xs = xs"
| "expand src (n # dst) xs =
     (if length src \<le> length dst then concat (replicate n (expand src dst xs))
      else if hd src = n then
        concat (map (\<lambda>i. expand (tl src) dst
                         (take (prod_list (tl src)) (drop (i * prod_list (tl src)) xs)))
                    [0..<n])
      else concat (replicate n (expand (tl src) dst xs)))"

text \<open>One operation on two slices whose sizes match.\<close>

definition bc_pair :: "(fval \<Rightarrow> fval \<Rightarrow> fval) \<Rightarrow> fval list \<Rightarrow> fval list \<Rightarrow> fval list" where
  "bc_pair f xs ys =
     (if length xs = length ys then map2 f xs ys
      else if length ys = 1 then map (\<lambda>a. f a (hd ys)) xs
      else if length xs = 1 then map (f (hd xs)) ys
      else [])"

text \<open>
  The device of the result of a binary operation: both operands are on one device, or one
  of them is a zero-dimensional tensor on the CPU. Torch raises a RuntimeError otherwise.
\<close>

definition result_device :: "tensor \<Rightarrow> tensor \<Rightarrow> device option" where
  "result_device a b =
     (if device a = device b then Some (device a)
      else if shape b = [] \<and> dev_type (device b) = ''cpu'' then Some (device a)
      else if shape a = [] \<and> dev_type (device a) = ''cpu'' then Some (device b)
      else None)"

text \<open>
  \<^verbatim>\<open>a * b\<close> on two tensors: the devices agree, the shapes broadcast, and the result has
  the broadcast shape and the result dtype. Torch raises a RuntimeError otherwise.
\<close>

definition Tensor_mul :: "tensor \<Rightarrow> tensor \<Rightarrow> error + tensor" where
  "Tensor_mul a b =
     (case result_device a b of
        None \<Rightarrow> Inl RuntimeError
      | Some dev \<Rightarrow>
          (case broadcast_shapes (shape a) (shape b) of
             None \<Rightarrow> Inl RuntimeError
           | Some sh \<Rightarrow>
               Inr \<lparr>dtype = result_type a b, device = dev, shape = sh,
                    rows = map2 (bc_pair (k_mul (result_type a b)))
                             (expand (lead (shape a)) (lead sh) (rows a))
                             (expand (lead (shape b)) (lead sh) (rows b))\<rparr>))"

section \<open>The autocast state\<close>

text \<open>
  Torch's autocast state: the answer of \<^verbatim>\<open>torch.is_autocast_enabled()\<close>, which called
  without an argument tells whether autocast is enabled for the accelerator (CUDA); the
  answer of \<^verbatim>\<open>torch.is_autocast_cpu_enabled()\<close>, which the module never asks for; the
  answers of \<^verbatim>\<open>torch.get_autocast_gpu_dtype()\<close> and \<^verbatim>\<open>torch.get_autocast_cpu_dtype()\<close>;
  and the device types for which \<^verbatim>\<open>torch.autocast\<close> can be entered.
\<close>

record autocast_state =
  is_autocast_enabled :: bool
  is_autocast_cpu_enabled :: bool
  autocast_gpu_dtype :: dtype
  autocast_cpu_dtype :: dtype
  autocast_device_types :: "string list"

section \<open>The module\<close>

definition cast_if_autocast_enabled :: "autocast_state \<Rightarrow> tensor \<Rightarrow> error + tensor" where
  "cast_if_autocast_enabled ctx t =
     (if is_autocast_enabled ctx then
        (if dev_type (device t) = ''cuda'' then Inr (Tensor_to (autocast_gpu_dtype ctx) t)
         else if dev_type (device t) = ''cpu'' then Inr (Tensor_to (autocast_cpu_dtype ctx) t)
         else Inl NotImplementedError)
      else Inr t)"

definition rms_norm :: "tensor \<Rightarrow> tensor option \<Rightarrow> real \<Rightarrow> error + tensor" where
  "rms_norm x weight eps =
     (case Tensor_mul x (torch_rsqrt (Tensor_add_scalar (Tensor_mean_keepdim (Tensor_pow x 2)) eps)) of
        Inl e \<Rightarrow> Inl e
      | Inr output \<Rightarrow>
          (case weight of
             Some w \<Rightarrow> Tensor_mul output w
           | None \<Rightarrow> Inr output))"

text \<open>
  \<^verbatim>\<open>rms_norm\<close> is written with the plain semantics of its five tensor operations (no
  autocast rewriting of an operation). That is how \<^verbatim>\<open>LPRMSNorm.forward\<close> runs it, inside
  \<^verbatim>\<open>torch.autocast(enabled=False, ...)\<close>, and how it runs in \<^verbatim>\<open>RMSNorm.forward\<close>, whose
  argument is float32 already: autocast could only lift \<^verbatim>\<open>pow\<close> and \<^verbatim>\<open>rsqrt\<close> to float32.
\<close>

record RMSNorm_state =
  eps :: real
  weight :: "tensor option"

text \<open>\<^verbatim>\<open>torch.ones(n, dtype=dt, device=dev)\<close> for an integer shape \<open>n\<close>.\<close>

definition torch_ones :: "nat \<Rightarrow> dtype \<Rightarrow> device \<Rightarrow> tensor" where
  "torch_ones n dt dev =
     \<lparr>dtype = dt, device = dev, shape = [n], rows = [replicate n (Fin 1)]\<rparr>"

text \<open>
  \<^verbatim>\<open>RMSNorm.__init__\<close>: \<open>default_dtype\<close> and \<open>default_device\<close> are what torch takes when
  the arguments \<^verbatim>\<open>dtype\<close> and \<^verbatim>\<open>device\<close> are \<^verbatim>\<open>None\<close>.
\<close>

definition RMSNorm_init ::
  "dtype \<Rightarrow> device \<Rightarrow> nat \<Rightarrow> real \<Rightarrow> bool \<Rightarrow> dtype option \<Rightarrow> device option \<Rightarrow> RMSNorm_state" where
  "RMSNorm_init default_dtype default_device n e w dt dev =
     \<lparr>eps = e,
      weight =
        (if w then
           Some (torch_ones n
                  (case dt of None \<Rightarrow> default_dtype | Some d \<Rightarrow> d)
                  (case dev of None \<Rightarrow> default_device | Some v \<Rightarrow> v))
         else None)\<rparr>"

definition RMSNorm_forward :: "RMSNorm_state \<Rightarrow> tensor \<Rightarrow> error + tensor" where
  "RMSNorm_forward self x =
     (case rms_norm (Tensor_float x) (weight self) (eps self) of
        Inl e \<Rightarrow> Inl e
      | Inr y \<Rightarrow> Inr (Tensor_to (dtype x) y))"

text \<open>\<^verbatim>\<open>LPRMSNorm.__init__\<close> hands its arguments to \<^verbatim>\<open>RMSNorm.__init__\<close>.\<close>

definition LPRMSNorm_init ::
  "dtype \<Rightarrow> device \<Rightarrow> nat \<Rightarrow> real \<Rightarrow> bool \<Rightarrow> dtype option \<Rightarrow> device option \<Rightarrow> RMSNorm_state" where
  "LPRMSNorm_init default_dtype default_device n e w dt dev =
     RMSNorm_init default_dtype default_device n e w dt dev"

text \<open>
  \<^verbatim>\<open>_cast_if_autocast_enabled(p) if p is not None else p\<close>, for a parameter \<open>p\<close> of a layer.
\<close>

definition cast_parameter :: "autocast_state \<Rightarrow> tensor option \<Rightarrow> error + tensor option" where
  "cast_parameter ctx p =
     (case p of
        None \<Rightarrow> Inr None
      | Some t \<Rightarrow>
          (case cast_if_autocast_enabled ctx t of
             Inl e \<Rightarrow> Inl e
           | Inr t' \<Rightarrow> Inr (Some t')))"

text \<open>
  Entering \<^verbatim>\<open>torch.autocast(enabled=False, device_type=ty)\<close>: torch raises a RuntimeError
  (unsupported autocast device type) for a device type that has no autocast; otherwise the
  block runs with autocast off.
\<close>

definition torch_autocast_off :: "autocast_state \<Rightarrow> string \<Rightarrow> error + unit" where
  "torch_autocast_off ctx ty =
     (if ty \<in> set (autocast_device_types ctx) then Inr () else Inl RuntimeError)"

definition LPRMSNorm_forward :: "autocast_state \<Rightarrow> RMSNorm_state \<Rightarrow> tensor \<Rightarrow> error + tensor" where
  "LPRMSNorm_forward ctx self x =
     (case cast_if_autocast_enabled ctx x of
        Inl e \<Rightarrow> Inl e
      | Inr downcast_x \<Rightarrow>
          (case cast_parameter ctx (weight self) of
             Inl e \<Rightarrow> Inl e
           | Inr downcast_weight \<Rightarrow>
               (case torch_autocast_off ctx (dev_type (device x)) of
                  Inl e \<Rightarrow> Inl e
                | Inr u \<Rightarrow>
                    (case rms_norm downcast_x downcast_weight (eps self) of
                       Inl e \<Rightarrow> Inl e
                     | Inr y \<Rightarrow> Inr (Tensor_to (dtype x) y)))))"

text \<open>
  The state of a \<^verbatim>\<open>torch.nn.LayerNorm\<close>, which \<^verbatim>\<open>LPLayerNorm\<close> inherits, and
  \<^verbatim>\<open>torch.nn.functional.layer_norm\<close>, which is torch's and is taken as a parameter: its
  first argument tells whether autocast is in effect for the call.
\<close>

record LayerNorm_state =
  normalized_shape :: "nat list"
  ln_eps :: real
  ln_weight :: "tensor option"
  ln_bias :: "tensor option"

type_synonym layer_norm_fn =
  "bool \<Rightarrow> tensor \<Rightarrow> nat list \<Rightarrow> tensor option \<Rightarrow> tensor option \<Rightarrow> real \<Rightarrow> error + tensor"

definition LPLayerNorm_forward ::
  "layer_norm_fn \<Rightarrow> autocast_state \<Rightarrow> LayerNorm_state \<Rightarrow> tensor \<Rightarrow> error + tensor" where
  "LPLayerNorm_forward layer_norm ctx self x =
     (case cast_if_autocast_enabled ctx x of
        Inl e \<Rightarrow> Inl e
      | Inr downcast_x \<Rightarrow>
          (case cast_parameter ctx (ln_weight self) of
             Inl e \<Rightarrow> Inl e
           | Inr downcast_weight \<Rightarrow>
               (case cast_parameter ctx (ln_bias self) of
                  Inl e \<Rightarrow> Inl e
                | Inr downcast_bias \<Rightarrow>
                    (case torch_autocast_off ctx (dev_type (device x)) of
                       Inl e \<Rightarrow> Inl e
                     | Inr u \<Rightarrow>
                         layer_norm False downcast_x (normalized_shape self)
                           downcast_weight downcast_bias (ln_eps self)))))"

subsection \<open>The registry\<close>









section \<open>Notions the properties are stated with\<close>

text \<open>What \<^verbatim>\<open>rms_norm\<close> makes of one slice \<open>r\<close>, before the weight.\<close>

definition normalise_slice :: "dtype \<Rightarrow> real \<Rightarrow> fval list \<Rightarrow> fval list" where
  "normalise_slice d e r =
     map (\<lambda>v. k_mul d v (k_rsqrt d (k_add_scalar d (k_mean d (map (\<lambda>u. k_pow d u 2) r)) e))) r"

text \<open>
  The input contract of the layers: the input has a trailing dimension, and the weight,
  when there is one, is a vector on the device of \<open>x\<close> whose length is the size of that
  dimension.
\<close>

definition weight_fits :: "tensor \<Rightarrow> tensor option \<Rightarrow> bool" where
  "weight_fits x w =
     (case w of
        None \<Rightarrow> True
      | Some s \<Rightarrow>
          device s = device x \<and> length (shape s) = 1 \<and> shape x \<noteq> [] \<and>
          last (shape x) = hd (shape s))"

text \<open>
  The devices on which \<^verbatim>\<open>LPRMSNorm.forward\<close> and \<^verbatim>\<open>LPLayerNorm.forward\<close> raise nothing:
  a device type the precision cast knows when autocast is enabled, and one for which
  \<^verbatim>\<open>torch.autocast\<close> can be entered.
\<close>

definition device_supported :: "autocast_state \<Rightarrow> tensor \<Rightarrow> bool" where
  "device_supported ctx x =
     ((if is_autocast_enabled ctx
       then dev_type (device x) = ''cuda'' \<or> dev_type (device x) = ''cpu'' else True) \<and>
      dev_type (device x) \<in> set (autocast_device_types ctx))"

text \<open>A slice of zeros, and a tensor without infinities and NaN.\<close>

definition zero_slice :: "fval list \<Rightarrow> bool" where
  "zero_slice r = list_all (\<lambda>v. v = Fin 0) r"

definition finite_tensor :: "tensor \<Rightarrow> bool" where
  "finite_tensor s = list_all (list_all is_fin) (rows s)"

text \<open>
  The slices of \<open>x\<close> as they meet the slices of a result \<open>y\<close> of \<^verbatim>\<open>rms_norm\<close>: the
  \<open>j\<close>-th of them is the slice of \<open>x\<close> that the \<open>j\<close>-th slice of \<open>y\<close> is computed from (the
  slices of \<open>x\<close> themselves, unless the weight has more leading dimensions than \<open>x\<close>).
\<close>

definition source_slices :: "tensor \<Rightarrow> tensor \<Rightarrow> fval list list" where
  "source_slices x y = expand (lead (shape x)) (lead (shape y)) (rows x)"

text \<open>A weight that is absent, or is a tensor of finite numbers.\<close>

definition finite_weight :: "tensor option \<Rightarrow> bool" where
  "finite_weight w = (case w of None \<Rightarrow> True | Some s \<Rightarrow> finite_tensor s \<and> wf_tensor s)"

subsection \<open>Concrete inputs\<close>

definition cpu :: device where
  "cpu = \<lparr>dev_type = ''cpu'', dev_index = 0\<rparr>"

definition cuda0 :: device where
  "cuda0 = \<lparr>dev_type = ''cuda'', dev_index = 0\<rparr>"

definition xla0 :: device where
  "xla0 = \<lparr>dev_type = ''xla'', dev_index = 0\<rparr>"

definition meta0 :: device where
  "meta0 = \<lparr>dev_type = ''meta'', dev_index = 0\<rparr>"

text \<open>
  Autocast states, with torch's default dtypes (float16 on the accelerator, bfloat16 on
  the host): autocast off; inside \<^verbatim>\<open>torch.autocast('cuda')\<close>; inside
  \<^verbatim>\<open>torch.autocast('cpu')\<close>, where only the CPU's autocast is enabled.
\<close>

definition autocast_off :: autocast_state where
  "autocast_off =
     \<lparr>is_autocast_enabled = False, is_autocast_cpu_enabled = False,
      autocast_gpu_dtype = Float16, autocast_cpu_dtype = BFloat16,
      autocast_device_types = [''cuda'', ''cpu'']\<rparr>"

definition autocast_on :: autocast_state where
  "autocast_on =
     \<lparr>is_autocast_enabled = True, is_autocast_cpu_enabled = False,
      autocast_gpu_dtype = Float16, autocast_cpu_dtype = BFloat16,
      autocast_device_types = [''cuda'', ''cpu'']\<rparr>"


text \<open>The input of the specification's scenario, of shape \<open>[2, 4]\<close>.\<close>

definition scenario_x :: "device \<Rightarrow> tensor" where
  "scenario_x dev =
     \<lparr>dtype = Float32, device = dev, shape = [2, 4],
      rows = [[Fin 1, Fin 1, Fin 1, Fin 1], [Fin 2, Fin 0, Fin 0, Fin 0]]\<rparr>"

definition zeros_x :: tensor where
  "zeros_x = \<lparr>dtype = Float32, device = cpu, shape = [1, 2], rows = [[Fin 0, Fin 0]]\<rparr>"

definition mixed_x :: tensor where
  "mixed_x =
     \<lparr>dtype = Float32, device = cpu, shape = [2, 2], rows = [[Fin 0, Fin 0], [Fin 3, Fin 4]]\<rparr>"

definition half_x :: tensor where
  "half_x = \<lparr>dtype = Float16, device = cuda0, shape = [1, 2], rows = [[Fin 1, Fin 2]]\<rparr>"

definition bf16_x :: tensor where
  "bf16_x = \<lparr>dtype = BFloat16, device = cuda0, shape = [1, 2], rows = [[Fin 1, Fin 2]]\<rparr>"

definition xla_x :: tensor where
  "xla_x = \<lparr>dtype = Float32, device = xla0, shape = [1, 2], rows = [[Fin 1, Fin 2]]\<rparr>"

definition meta_x :: tensor where
  "meta_x = \<lparr>dtype = Float32, device = meta0, shape = [1, 2], rows = [[Fin 1, Fin 2]]\<rparr>"

text \<open>A weight that has grown to infinity in its first entry.\<close>

definition inf_weight :: tensor where
  "inf_weight = \<lparr>dtype = Float32, device = cpu, shape = [2], rows = [[PInf, Fin 1]]\<rparr>"

text \<open>
  Layers: an \<^verbatim>\<open>RMSNorm(4)\<close> as torch builds it, one with a bfloat16 weight on the
  accelerator, one on the meta device, and the state of a \<^verbatim>\<open>LayerNorm(4)\<close> without bias.
\<close>

definition ones4_module :: RMSNorm_state where
  "ones4_module = RMSNorm_init Float32 cpu 4 (1 / 10 ^ 5) True None None"

definition bf16_module :: RMSNorm_state where
  "bf16_module = \<lparr>eps = 1 / 10 ^ 5, weight = Some (torch_ones 2 BFloat16 cuda0)\<rparr>"

definition meta_module :: RMSNorm_state where
  "meta_module = RMSNorm_init Float32 meta0 2 (1 / 10 ^ 5) True None None"

definition ln_module :: LayerNorm_state where
  "ln_module =
     \<lparr>normalized_shape = [4], ln_eps = 1 / 10 ^ 5,
      ln_weight = Some (torch_ones 4 Float32 cuda0), ln_bias = None\<rparr>"

text \<open>
  A stand-in for \<^verbatim>\<open>torch.nn.functional.layer_norm\<close> that keeps what matters of it here,
  the dtype of its result: float32 under autocast, the dtype of its input otherwise.
\<close>

definition dtype_only_layer_norm :: layer_norm_fn where
  "dtype_only_layer_norm amp t sh w b e = Inr (if amp then Tensor_float t else t)"

section \<open>Properties\<close>

subsection \<open>Rounding\<close>

lemma prec_pos: "1 \<le> prec d" by (cases d) simp_all

lemma emin_le_emax: "emin d \<le> emax d" by (cases d) simp_all

lemma rne_zero: "0 \<le> x \<Longrightarrow> x \<le> 1 / 2 \<Longrightarrow> rne x = 0"
proof -
  assume a: "0 \<le> x" "x \<le> 1 / 2"
  then have f: "\<lfloor>x\<rfloor> = 0" by linarith
  show ?thesis using a by (simp add: rne_def f Let_def)
qed

lemma rne_ge_one: "1 / 2 < x \<Longrightarrow> 1 \<le> rne x"
proof -
  assume a: "1 / 2 < x"
  then have f: "0 \<le> \<lfloor>x\<rfloor>" by linarith
  show ?thesis
  proof (cases "\<lfloor>x\<rfloor> = 0")
    case True
    then show ?thesis using a by (simp add: rne_def Let_def)
  next
    case False
    with f have "1 \<le> \<lfloor>x\<rfloor>" by linarith
    then show ?thesis by (simp add: rne_def Let_def)
  qed
qed

lemma rne_upper: "of_int (rne x) \<le> x + 1 / 2"
proof -
  have 1: "of_int \<lfloor>x\<rfloor> \<le> x" by linarith
  have 2: "x < of_int \<lfloor>x\<rfloor> + 1" by linarith
  show ?thesis
  proof (cases "x - of_int \<lfloor>x\<rfloor> < 1 / 2")
    case True
    then have "rne x = \<lfloor>x\<rfloor>" by (simp add: rne_def Let_def)
    then have "real_of_int (rne x) = of_int \<lfloor>x\<rfloor>" by simp
    then show ?thesis by linarith
  next
    case False
    then have 3: "of_int \<lfloor>x\<rfloor> + 1 \<le> x + 1 / 2" by linarith
    have "rne x = \<lfloor>x\<rfloor> \<or> rne x = \<lfloor>x\<rfloor> + 1" by (simp add: rne_def Let_def)
    then have "real_of_int (rne x) = of_int \<lfloor>x\<rfloor> \<or> real_of_int (rne x) = of_int \<lfloor>x\<rfloor> + 1"
      by auto
    then show ?thesis using 3 by linarith
  qed
qed

lemma rne_nonneg: "0 \<le> x \<Longrightarrow> 0 \<le> rne x"
proof -
  assume "0 \<le> x"
  then have "0 \<le> \<lfloor>x\<rfloor>" by linarith
  then show ?thesis by (simp add: rne_def Let_def)
qed

lemma ulp_exp_lower: "emin d - (prec d - 1) \<le> ulp_exp d r"
  by (simp add: ulp_exp_def)

lemma ulp_exp_small:
  assumes "0 < r" "r < 2 powr of_int (emin d)"
  shows "ulp_exp d r = emin d - (prec d - 1)"
proof -
  have "log 2 r < of_int (emin d)"
    using assms by (simp add: log_less_iff)
  then have "\<lfloor>log 2 r\<rfloor> < emin d" by linarith
  then show ?thesis using assms(1) by (simp add: ulp_exp_def)
qed

lemma rnd_zero: "rnd d 0 = Fin 0"
  by (simp add: rnd_def)

text \<open>A positive number up to half the least subnormal rounds to zero.\<close>

lemma rnd_underflow:
  assumes "0 < r" "r \<le> 2 powr of_int (emin d - prec d)"
  shows "rnd d r = Fin 0"
proof -
  have "2 powr of_int (emin d - prec d) < (2::real) powr of_int (emin d)"
    using prec_pos [of d] by simp
  with assms have small: "r < 2 powr of_int (emin d)" by linarith
  define u :: real where "u = 2 powr of_int (ulp_exp d r)"
  have "of_int (emin d - (prec d - 1)) = of_int (emin d - prec d) + (1::real)" by simp
  then have u: "u = 2 powr of_int (emin d - prec d) * 2"
    unfolding u_def ulp_exp_small [OF assms(1) small]
    by (simp only: powr_add powr_one)
  have upos: "0 < u" by (simp add: u_def)
  have "r / u \<le> 1 / 2" using assms(2) upos unfolding u
    by (simp add: field_simps)
  moreover have "0 \<le> r / u" using assms(1) upos by simp
  ultimately have "rne (r / u) = 0" by (rule rne_zero [rotated])
  then show ?thesis using assms(1) by (simp add: rnd_def Let_def u_def [symmetric])
qed

lemma ulp_exp_normal:
  assumes "0 < r" "2 powr of_int (emin d) \<le> r"
  shows "ulp_exp d r = \<lfloor>log 2 r\<rfloor> - (prec d - 1)"
proof -
  have "of_int (emin d) \<le> log 2 r"
    using assms by (simp add: le_log_iff)
  then have "emin d \<le> \<lfloor>log 2 r\<rfloor>" by linarith
  then show ?thesis using assms(1) by (simp add: ulp_exp_def)
qed

lemma floor_log_le: "0 < r \<Longrightarrow> 2 powr of_int \<lfloor>log 2 r\<rfloor> \<le> r"
proof -
  assume r: "0 < r"
  have "of_int \<lfloor>log 2 r\<rfloor> \<le> log 2 r" by linarith
  moreover have "(of_int \<lfloor>log 2 r\<rfloor> \<le> log 2 r) = (2 powr of_int \<lfloor>log 2 r\<rfloor> \<le> r)"
    using r by (intro le_log_iff) auto
  ultimately show ?thesis by blast
qed

text \<open>A number above half the least subnormal does not round to zero.\<close>

lemma quotient_gt_half:
  assumes "2 powr of_int (emin d - prec d) < r"
  shows "1 / 2 < r / 2 powr of_int (ulp_exp d r)"
proof -
  have rpos: "0 < r" using assms powr_gt_zero [of 2 "of_int (emin d - prec d)"] by linarith
  show ?thesis
  proof (cases "r < 2 powr of_int (emin d)")
    case True
    have e: "of_int (emin d - (prec d - 1)) = of_int (emin d - prec d) + (1::real)" by simp
    have "2 powr of_int (ulp_exp d r) = 2 powr of_int (emin d - prec d) * (2::real)"
      unfolding ulp_exp_small [OF rpos True] e by (simp only: powr_add powr_one)
    then show ?thesis using assms by (simp add: field_simps)
  next
    case False
    then have n: "2 powr of_int (emin d) \<le> r" by simp
    have e: "real_of_int (\<lfloor>log 2 r\<rfloor> - (prec d - 1)) = of_int \<lfloor>log 2 r\<rfloor> + - of_int (prec d - 1)"
      by simp
    have "(2::real) powr - of_int (prec d - 1) \<le> 2 powr 0"
      using prec_pos [of d] by (intro powr_mono) auto
    then have le1: "(2::real) powr - of_int (prec d - 1) \<le> 1" by simp
    have "2 powr of_int (ulp_exp d r) = 2 powr of_int \<lfloor>log 2 r\<rfloor> * (2::real) powr - of_int (prec d - 1)"
      unfolding ulp_exp_normal [OF rpos n] e by (simp only: powr_add)
    also have "\<dots> \<le> 2 powr of_int \<lfloor>log 2 r\<rfloor> * 1"
      by (intro mult_left_mono le1) simp
    also have "\<dots> \<le> r" using floor_log_le [OF rpos] by simp
    finally have "2 powr of_int (ulp_exp d r) \<le> r" .
    then have "1 \<le> r / 2 powr of_int (ulp_exp d r)" by (simp add: field_simps)
    then show ?thesis by linarith
  qed
qed

lemma rnd_positive:
  assumes "2 powr of_int (emin d - prec d) < r"
  shows "rnd d r = PInf \<or> (\<exists>e. rnd d r = Fin e \<and> 2 powr of_int (emin d - (prec d - 1)) \<le> e)"
proof -
  have rpos: "0 < r" using assms powr_gt_zero [of 2 "of_int (emin d - prec d)"] by linarith
  define u :: real where "u = 2 powr of_int (ulp_exp d r)"
  have upos: "0 < u" by (simp add: u_def)
  have "1 \<le> rne (r / u)"
    unfolding u_def by (rule rne_ge_one [OF quotient_gt_half [OF assms]])
  then have "1 \<le> real_of_int (rne (r / u))" by simp
  then have "1 * u \<le> of_int (rne (r / u)) * u"
    using upos by (intro mult_right_mono) auto
  moreover have "2 powr of_int (emin d - (prec d - 1)) \<le> u"
    unfolding u_def using ulp_exp_lower [of d r] by (intro powr_mono) auto
  ultimately have "2 powr of_int (emin d - (prec d - 1)) \<le> of_int (rne (r / u)) * u" by simp
  then show ?thesis using rpos by (simp add: rnd_def Let_def u_def [symmetric])
qed

text \<open>A positive number up to \<open>2 ^ emax\<close> rounds to a finite value.\<close>

lemma rnd_finite:
  assumes "0 < t" "t \<le> 2 powr of_int (emax d)"
  shows "\<exists>s. rnd d t = Fin s"
proof -
  define u :: real where "u = 2 powr of_int (ulp_exp d t)"
  have upos: "0 < u" by (simp add: u_def)
  have "log 2 t \<le> of_int (emax d)" using assms by (simp add: log_le_iff)
  then have "\<lfloor>log 2 t\<rfloor> \<le> emax d" by linarith
  then have "ulp_exp d t \<le> emax d"
    using emin_le_emax [of d] prec_pos [of d] assms(1) by (simp add: ulp_exp_def)
  then have ule: "u \<le> 2 powr of_int (emax d)"
    unfolding u_def by (intro powr_mono) auto
  have q: "0 \<le> t / u" using assms(1) upos by simp
  have m0: "0 \<le> real_of_int (rne (t / u))" using rne_nonneg [OF q] by simp
  have "of_int (rne (t / u)) * u \<le> (t / u + 1 / 2) * u"
    using upos by (intro mult_right_mono rne_upper) auto
  also have "\<dots> = t + u / 2" using upos by (simp add: field_simps)
  also have "\<dots> \<le> 2 powr of_int (emax d) + 2 powr of_int (emax d) / 2"
    using assms(2) ule by simp
  also have "\<dots> < 2 powr of_int (emax d) * 2"
    using powr_gt_zero [of 2 "of_int (emax d)"] by simp
  also have "\<dots> = 2 powr of_int (emax d + 1)"
    by (simp add: powr_add)
  finally have "of_int (rne (t / u)) * u < 2 powr of_int (emax d + 1)" .
  moreover have "0 \<le> of_int (rne (t / u)) * u" using m0 upos by simp
  ultimately have "\<not> 2 powr of_int (emax d + 1) \<le> \<bar>of_int (rne (t / u)) * u\<bar>" by simp
  then show ?thesis using assms(1) by (simp add: rnd_def Let_def u_def [symmetric])
qed

lemma rnd_nonneg:
  assumes "0 \<le> r"
  shows "rnd d r = PInf \<or> (\<exists>v. rnd d r = Fin v \<and> 0 \<le> v)"
proof (cases "r = 0")
  case True
  then show ?thesis by (simp add: rnd_def)
next
  case False
  with assms have rpos: "0 < r" by simp
  define u :: real where "u = 2 powr of_int (ulp_exp d r)"
  have upos: "0 < u" by (simp add: u_def)
  have "0 \<le> r / u" using rpos upos by simp
  from rne_nonneg [OF this] have "0 \<le> real_of_int (rne (r / u))" by simp
  then have "0 \<le> of_int (rne (r / u)) * u" using upos by simp
  then show ?thesis using rpos by (simp add: rnd_def Let_def u_def [symmetric])
qed

text \<open>A rounded value that is not zero is at least the least subnormal.\<close>

lemma rnd_nonzero_lower:
  assumes "rnd d r = Fin v" "0 < v"
  shows "2 powr of_int (emin d - (prec d - 1)) \<le> v"
proof -
  have r0: "r \<noteq> 0" using assms by (auto simp: rnd_def)
  define u :: real where "u = 2 powr of_int (ulp_exp d r)"
  have upos: "0 < u" by (simp add: u_def)
  have v: "v = of_int (rne (r / u)) * u"
    using assms(1) r0 by (auto simp: rnd_def Let_def u_def [symmetric] split: if_splits)
  with assms(2) upos have "0 < real_of_int (rne (r / u))"
    by (simp add: zero_less_mult_iff)
  then have "1 \<le> real_of_int (rne (r / u))" by simp
  then have "1 * u \<le> of_int (rne (r / u)) * u"
    using upos by (intro mult_right_mono) auto
  moreover have "2 powr of_int (emin d - (prec d - 1)) \<le> u"
    unfolding u_def using ulp_exp_lower [of d r] by (intro powr_mono) auto
  ultimately show ?thesis using v by simp
qed

text \<open>A positive number up to \<open>2 ^ k\<close> rounds to at most \<open>2 ^ (k + 1)\<close>.\<close>

lemma rnd_upper:
  assumes "0 < t" "t \<le> 2 powr of_int k" "emin d \<le> k" "rnd d t = Fin b"
  shows "b \<le> 2 powr of_int (k + 1)"
proof -
  define u :: real where "u = 2 powr of_int (ulp_exp d t)"
  have upos: "0 < u" by (simp add: u_def)
  have "log 2 t \<le> of_int k" using assms(1,2) by (simp add: log_le_iff)
  then have "\<lfloor>log 2 t\<rfloor> \<le> k" by linarith
  then have "ulp_exp d t \<le> k"
    using assms(1,3) prec_pos [of d] by (simp add: ulp_exp_def)
  then have ule: "u \<le> 2 powr of_int k"
    unfolding u_def by (intro powr_mono) auto
  have b: "b = of_int (rne (t / u)) * u"
    using assms(1,4) by (auto simp: rnd_def Let_def u_def [symmetric] split: if_splits)
  have "of_int (rne (t / u)) * u \<le> (t / u + 1 / 2) * u"
    using upos by (intro mult_right_mono rne_upper) auto
  also have "\<dots> = t + u / 2" using upos by (simp add: field_simps)
  also have "\<dots> \<le> 2 powr of_int k + 2 powr of_int k / 2"
    using assms(2) ule by simp
  also have "\<dots> \<le> 2 powr of_int k * 2"
    using powr_gt_zero [of 2 "of_int k"] by simp
  also have "\<dots> = 2 powr of_int (k + 1)"
    by (simp add: powr_add)
  finally show ?thesis using b by simp
qed

lemma sqrt_powr_even: "sqrt (2 powr (- 2 * x)) = 2 powr (- x)"
proof -
  have "sqrt (2 powr (- 2 * x)) = (2 powr (- 2 * x)) powr (1 / 2)"
    by (simp add: powr_half_sqrt)
  also have "\<dots> = 2 powr (- 2 * x * (1 / 2))"
    by (simp only: powr_powr)
  also have "\<dots> = 2 powr (- x)" by simp
  finally show ?thesis .
qed

lemma inv_powr_neg: "1 / (2::real) powr (- x) = 2 powr x"
  by (simp add: powr_minus divide_inverse)

lemma rsqrt_in_range:
  assumes "2 powr of_int (emin d - (prec d - 1)) \<le> e"
  shows "0 < 1 / sqrt e" "1 / sqrt e \<le> 2 powr of_int (emax d - 1)"
proof -
  have epos: "0 < e" using assms powr_gt_zero [of 2 "of_int (emin d - (prec d - 1))"] by linarith
  then show "0 < 1 / sqrt e" by simp
  have "2 powr (- 2 * of_int (emax d - 1)) \<le> (2::real) powr of_int (emin d - (prec d - 1))"
    by (intro powr_mono) (cases d; simp)+
  with assms have "2 powr (- 2 * of_int (emax d - 1)) \<le> e" by linarith
  then have "sqrt (2 powr (- 2 * of_int (emax d - 1))) \<le> sqrt e" by simp
  moreover have "sqrt (2 powr (- 2 * of_int (emax d - 1))) = 2 powr (- of_int (emax d - 1))"
    by (rule sqrt_powr_even)
  ultimately have "2 powr (- of_int (emax d - 1)) \<le> sqrt e" by linarith
  then have "1 / sqrt e \<le> 1 / 2 powr (- of_int (emax d - 1))"
    by (intro divide_left_mono) (auto simp: epos)
  also have "\<dots> = 2 powr of_int (emax d - 1)" by (rule inv_powr_neg)
  finally show "1 / sqrt e \<le> 2 powr of_int (emax d - 1)" .
qed

subsection \<open>Storing a result\<close>

lemma store_zero: "store d 0 = Fin 0"
  by (simp add: store_def rnd_zero)

lemma opmath_cases: "opmath d = d \<or> opmath d = Float32"
  by (cases d) simp_all

lemma store_nonneg:
  assumes "0 \<le> s"
  shows "store d s = PInf \<or>
         (\<exists>v. store d s = Fin v \<and> (v = 0 \<or> 2 powr of_int (emin d - (prec d - 1)) \<le> v))"
proof -
  have last: "\<And>r. 0 \<le> r \<Longrightarrow> rnd d r = PInf \<or>
         (\<exists>v. rnd d r = Fin v \<and> (v = 0 \<or> 2 powr of_int (emin d - (prec d - 1)) \<le> v))"
  proof -
    fix r :: real assume "0 \<le> r"
    from rnd_nonneg [OF this, of d] show "rnd d r = PInf \<or>
         (\<exists>v. rnd d r = Fin v \<and> (v = 0 \<or> 2 powr of_int (emin d - (prec d - 1)) \<le> v))"
    proof
      assume "rnd d r = PInf"
      then show ?thesis by simp
    next
      assume "\<exists>v. rnd d r = Fin v \<and> 0 \<le> v"
      then obtain v where v: "rnd d r = Fin v" "0 \<le> v" by blast
      show ?thesis
      proof (cases "v = 0")
        case True
        with v show ?thesis by simp
      next
        case False
        with v have "0 < v" by simp
        from rnd_nonzero_lower [OF v(1) this] v(1) show ?thesis by simp
      qed
    qed
  qed
  show ?thesis
  proof (cases "opmath d = d")
    case True
    then show ?thesis using last [OF assms] by (simp add: store_def)
  next
    case False
    from rnd_nonneg [OF assms, of "opmath d"] show ?thesis
    proof
      assume "rnd (opmath d) s = PInf"
      then show ?thesis using False by (simp add: store_def)
    next
      assume "\<exists>v. rnd (opmath d) s = Fin v \<and> 0 \<le> v"
      then obtain b where b: "rnd (opmath d) s = Fin b" "0 \<le> b" by blast
      then show ?thesis using False last [OF b(2)] by (simp add: store_def)
    qed
  qed
qed

lemma store_finite:
  assumes "0 < t" "t \<le> 2 powr of_int (emax d - 1)"
  shows "\<exists>s. store d t = Fin s"
proof -
  have "real_of_int (emax d - 1) \<le> real_of_int (emax d)" by simp
  then have le: "(2::real) powr of_int (emax d - 1) \<le> 2 powr of_int (emax d)"
    by (intro powr_mono) simp_all
  show ?thesis
  proof (cases "opmath d = d")
    case True
    have "t \<le> 2 powr of_int (emax d)" using assms(2) le by linarith
    from rnd_finite [OF assms(1) this] show ?thesis using True by (simp add: store_def)
  next
    case False
    then have om: "opmath d = Float32" using opmath_cases [of d] by simp
    have k: "emin Float32 \<le> emax d - 1" by (cases d) simp_all
    have "emax d - 1 \<le> emax Float32" using False by (cases d) simp_all
    then have "real_of_int (emax d - 1) \<le> real_of_int (emax Float32)"
      by (simp only: of_int_le_iff)
    then have "(2::real) powr of_int (emax d - 1) \<le> 2 powr of_int (emax Float32)"
      by (intro powr_mono) simp_all
    with assms(2) have "t \<le> 2 powr of_int (emax Float32)" by linarith
    from rnd_finite [OF assms(1) this] obtain b where b: "rnd Float32 t = Fin b" by blast
    have "0 \<le> t" using assms(1) by simp
    from rnd_nonneg [OF this, of Float32] b have b0: "0 \<le> b" by simp
    from rnd_upper [OF assms k b] have bu: "b \<le> 2 powr of_int (emax d)" by simp
    have "\<exists>s. rnd d b = Fin s"
    proof (cases "b = 0")
      case True
      then show ?thesis by (simp add: rnd_zero)
    next
      case False
      with b0 have "0 < b" by simp
      from rnd_finite [OF this bu] show ?thesis .
    qed
    then show ?thesis using False om b by (simp add: store_def)
  qed
qed

lemma k_mean_zeros: "0 < n \<Longrightarrow> k_mean d (replicate n (Fin 0)) = Fin 0"
  by (auto simp: k_mean_def store_zero sum_list_replicate)

text \<open>
  When a positive \<open>eps\<close>, added to zero, is not zero, its reciprocal square root is finite.
\<close>

lemma rsqrt_of_eps_finite:
  assumes "0 < e" "k_add_scalar d (Fin 0) e \<noteq> Fin 0"
  shows "\<exists>s. k_rsqrt d (k_add_scalar d (Fin 0) e) = Fin s"
proof -
  have "0 \<le> e" using assms(1) by simp
  from rnd_nonneg [OF this, of "opmath d"] show ?thesis
  proof
    assume "rnd (opmath d) e = PInf"
    then show ?thesis by (simp add: k_add_scalar_def)
  next
    assume "\<exists>v. rnd (opmath d) e = Fin v \<and> 0 \<le> v"
    then obtain s where s: "rnd (opmath d) e = Fin s" "0 \<le> s" by blast
    then have k: "k_add_scalar d (Fin 0) e = store d s" by (simp add: k_add_scalar_def)
    from store_nonneg [OF s(2), of d] show ?thesis
    proof
      assume "store d s = PInf"
      then show ?thesis using k by simp
    next
      assume "\<exists>v. store d s = Fin v \<and> (v = 0 \<or> 2 powr of_int (emin d - (prec d - 1)) \<le> v)"
      then obtain v where v: "store d s = Fin v"
        "v = 0 \<or> 2 powr of_int (emin d - (prec d - 1)) \<le> v" by blast
      with assms(2) k have lo: "2 powr of_int (emin d - (prec d - 1)) \<le> v" by auto
      then have pos: "0 < v"
        using powr_gt_zero [of 2 "of_int (emin d - (prec d - 1))"] by linarith
      from store_finite [OF rsqrt_in_range [OF lo]] obtain t where "store d (1 / sqrt v) = Fin t"
        by blast
      then show ?thesis using k v(1) pos by simp
    qed
  qed
qed

subsection \<open>Tensor operations\<close>

lemma dtype_Tensor_to: "dtype (Tensor_to d t) = d"
  by (simp add: Tensor_to_def)

lemma device_Tensor_to: "device (Tensor_to d t) = device t"
  by (simp add: Tensor_to_def)

lemma shape_Tensor_to: "shape (Tensor_to d t) = shape t"
  by (simp add: Tensor_to_def)

lemma weight_fits_Tensor_to: "weight_fits (Tensor_to d x) w = weight_fits x w"
  by (cases w) (simp_all add: weight_fits_def device_Tensor_to shape_Tensor_to)

lemma weight_fits_cast_weight: "weight_fits x (Some (Tensor_to d s)) = weight_fits x (Some s)"
  by (simp add: weight_fits_def device_Tensor_to shape_Tensor_to)

lemma promote_types_same: "promote_types d d = d"
  by (cases d) simp_all


lemma Tensor_mul_Inr:
  assumes "Tensor_mul a b = Inr y"
  shows "dtype y = result_type a b"
    and "broadcast_shapes (shape a) (shape b) = Some (shape y)"
    and "rows y = map2 (bc_pair (k_mul (result_type a b)))
                    (expand (lead (shape a)) (lead (shape y)) (rows a))
                    (expand (lead (shape b)) (lead (shape y)) (rows b))"
  using assms by (auto simp: Tensor_mul_def split: option.splits)

subsection \<open>Broadcasting\<close>

text \<open>
  Two products as torch forms them: a tensor of shape \<open>[2, 3, k]\<close> meets the three slices
  of one of shape \<open>[3, k]\<close> twice over, and the two slices of one of shape \<open>[2, 1, k]\<close>
  three times each; shapes \<open>[2, 3]\<close> and \<open>[4, 3]\<close> do not go together.
\<close>

lemma broadcast_shapes_leading: "broadcast_shapes [2, 3, 2] [3, 2] = Some [2, 3, 2]"
  by (simp add: broadcast_shapes_def broadcast_dim_def)

lemma broadcast_shapes_mismatch: "broadcast_shapes [2, 3] [4, 3] = None"
  by (simp add: broadcast_shapes_def broadcast_dim_def)

lemma expand_missing_dimension: "expand [3] [2, 3] [a, b, c] = [a, b, c, a, b, c]"
  by (simp add: upt_rec numeral_2_eq_2 numeral_3_eq_3)

lemma expand_unit_dimension: "expand [2, 1] [2, 3] [a, b] = [a, a, a, b, b, b]"
  by (simp add: upt_rec numeral_2_eq_2 numeral_3_eq_3)

lemma broadcast_dim_same: "broadcast_dim n n = Some n"
  by (simp add: broadcast_dim_def)

lemma broadcast_dim_one: "broadcast_dim n 1 = Some n" "broadcast_dim n (Suc 0) = Some n"
  by (simp_all add: broadcast_dim_def)

lemma broadcast_rev_Nil2: "broadcast_rev xs [] = Some xs"
  by (cases xs) simp_all

lemma broadcast_rev_same: "broadcast_rev xs xs = Some xs"
  by (induction xs) (simp_all add: broadcast_dim_same)

lemma broadcast_shapes_same: "broadcast_shapes sh sh = Some sh"
  by (simp add: broadcast_shapes_def broadcast_rev_same)

lemma broadcast_shapes_keepdim: "broadcast_shapes sh (keepdim_shape sh) = Some sh"
proof (cases "sh = []")
  case True
  then show ?thesis by (simp add: keepdim_shape_def broadcast_shapes_def)
next
  case False
  then have r: "rev sh = last sh # rev (butlast sh)"
    by (metis append_butlast_last_id rev.simps(2) rev_rev_ident rev_singleton_conv rev_append append_Cons append_Nil)
  have "broadcast_rev (rev sh) (rev (keepdim_shape sh)) = Some (rev sh)"
    using False unfolding r
    by (simp add: keepdim_shape_def lead_def broadcast_dim_one broadcast_rev_same)
  then show ?thesis by (simp add: broadcast_shapes_def)
qed

lemma broadcast_shapes_vector:
  assumes "sh \<noteq> []" "last sh = n"
  shows "broadcast_shapes sh [n] = Some sh"
proof -
  have r: "rev sh = n # rev (butlast sh)"
    using assms
    by (metis append_butlast_last_id rev.simps(2) rev_rev_ident rev_singleton_conv rev_append append_Cons append_Nil)
  have "broadcast_rev (rev sh) (rev [n]) = Some (rev sh)"
    unfolding r by (simp add: broadcast_dim_same broadcast_rev_Nil2)
  then show ?thesis by (simp add: broadcast_shapes_def)
qed

lemma lead_keepdim: "lead (keepdim_shape sh) = lead sh"
  by (simp add: keepdim_shape_def lead_def butlast_append)

lemma keepdim_Nil_iff: "(keepdim_shape sh = []) = (sh = [])"
  by (simp add: keepdim_shape_def)

lemma map_concat_replicate: "map g (concat (replicate n xs)) = concat (replicate n (map g xs))"
  by (induction n) simp_all

lemma expand_map: "expand src dst (map g xs) = map g (expand src dst xs)"
proof (induction dst arbitrary: src xs)
  case Nil
  then show ?case by simp
next
  case (Cons n dst)
  have "\<And>k i. expand (tl src) dst (take k (drop i (map g xs))) =
          map g (expand (tl src) dst (take k (drop i xs)))"
    by (simp add: drop_map take_map Cons.IH)
  then show ?case
    by (simp add: Cons.IH map_concat_replicate map_concat comp_def)
qed

lemma set_concat_replicate: "set (concat (replicate n xs)) \<subseteq> set xs"
  by (induction n) auto

lemma set_expand: "set (expand src dst xs) \<subseteq> set xs"
proof (induction dst arbitrary: src xs)
  case Nil
  then show ?case by simp
next
  case (Cons n dst)
  have a: "set (concat (replicate n (expand src dst xs))) \<subseteq> set xs"
    using set_concat_replicate [of n "expand src dst xs"] Cons.IH [of src xs] by blast
  have b: "set (concat (replicate n (expand (tl src) dst xs))) \<subseteq> set xs"
    using set_concat_replicate [of n "expand (tl src) dst xs"] Cons.IH [of "tl src" xs] by blast
  have c: "set (concat (map (\<lambda>i. expand (tl src) dst
                         (take (prod_list (tl src)) (drop (i * prod_list (tl src)) xs)))
                    [0..<n])) \<subseteq> set xs"
  proof
    fix v assume "v \<in> set (concat (map (\<lambda>i. expand (tl src) dst
                         (take (prod_list (tl src)) (drop (i * prod_list (tl src)) xs)))
                    [0..<n]))"
    then obtain i where "v \<in> set (expand (tl src) dst
        (take (prod_list (tl src)) (drop (i * prod_list (tl src)) xs)))"
      by auto
    with Cons.IH [of "tl src" "take (prod_list (tl src)) (drop (i * prod_list (tl src)) xs)"]
    have "v \<in> set (take (prod_list (tl src)) (drop (i * prod_list (tl src)) xs))" by blast
    then show "v \<in> set xs" by (meson in_set_dropD in_set_takeD)
  qed
  show ?case using a b c by simp
qed

text \<open>The parts of a list, put together again.\<close>

lemma concat_chunks:
  "length xs = n * k \<Longrightarrow> concat (map (\<lambda>i. take k (drop (i * k) xs)) [0..<n]) = xs"
proof (induction n arbitrary: xs)
  case 0
  then show ?case by simp
next
  case (Suc n)
  have len: "length (take (n * k) xs) = n * k" using Suc.prems by simp
  have "concat (map (\<lambda>i. take k (drop (i * k) xs)) [0..<Suc n]) =
        concat (map (\<lambda>i. take k (drop (i * k) xs)) [0..<n]) @ take k (drop (n * k) xs)"
    by simp
  also have "map (\<lambda>i. take k (drop (i * k) xs)) [0..<n] =
             map (\<lambda>i. take k (drop (i * k) (take (n * k) xs))) [0..<n]"
  proof (rule map_cong [OF refl])
    fix i assume "i \<in> set [0..<n]"
    then have "i < n" by simp
    then have "Suc i \<le> n" by simp
    then have "Suc i * k \<le> n * k" by (rule mult_le_mono1)
    then have "k + i * k \<le> n * k" by simp
    then show "take k (drop (i * k) xs) = take k (drop (i * k) (take (n * k) xs))"
      by (simp add: drop_take min_def)
  qed
  also have "concat \<dots> = take (n * k) xs" by (rule Suc.IH [OF len])
  also have "take k (drop (n * k) xs) = drop (n * k) xs" using Suc.prems by simp
  finally show ?case by simp
qed

lemma expand_same: "length xs = prod_list sh \<Longrightarrow> expand sh sh xs = xs"
proof (induction sh arbitrary: xs)
  case Nil
  then show ?case by simp
next
  case (Cons n sh)
  have len: "length xs = n * prod_list sh" using Cons.prems by simp
  have e: "expand (n # sh) (n # sh) xs =
        concat (map (\<lambda>i. expand sh sh (take (prod_list sh) (drop (i * prod_list sh) xs))) [0..<n])"
    by simp
  have m: "map (\<lambda>i. expand sh sh (take (prod_list sh) (drop (i * prod_list sh) xs))) [0..<n] =
        map (\<lambda>i. take (prod_list sh) (drop (i * prod_list sh) xs)) [0..<n]"
  proof (rule map_cong [OF refl])
    fix i assume "i \<in> set [0..<n]"
    then have "i < n" by simp
    then have "Suc i \<le> n" by simp
    then have "Suc i * prod_list sh \<le> n * prod_list sh" by (rule mult_le_mono1)
    then have "prod_list sh + i * prod_list sh \<le> length xs" using len by simp
    then have "length (take (prod_list sh) (drop (i * prod_list sh) xs)) = prod_list sh"
      by simp
    then show "expand sh sh (take (prod_list sh) (drop (i * prod_list sh) xs)) =
               take (prod_list sh) (drop (i * prod_list sh) xs)"
      by (rule Cons.IH)
  qed
  show ?case unfolding e m by (rule concat_chunks [OF len])
qed

subsection \<open>One slice against another\<close>

lemma bc_pair_single: "bc_pair f r [c] = map (\<lambda>a. f a c) r"
  by (cases r rule: list.exhaust; cases "tl r") (auto simp: bc_pair_def)

lemma map2_map_right: "map2 h A (map g A) = map (\<lambda>r. h r (g r)) A"
  by (induction A) simp_all

lemma k_mul_zero_finite: "k_mul p (Fin 0) (Fin b) = Fin 0"
  by (simp add: store_zero)

lemma zero_slice_bc_pair:
  assumes "zero_slice xs" "list_all is_fin ys"
  shows "zero_slice (bc_pair (k_mul p) xs ys)"
proof -
  have z: "\<And>a b. a \<in> set xs \<Longrightarrow> b \<in> set ys \<Longrightarrow> k_mul p a b = Fin 0"
  proof -
    fix a b assume "a \<in> set xs" "b \<in> set ys"
    with assms have a: "a = Fin 0" and "is_fin b"
      by (auto simp: zero_slice_def list_all_iff)
    then obtain c where "b = Fin c" by (cases b) auto
    with a show "k_mul p a b = Fin 0" by (simp add: store_zero)
  qed
  have 1: "zero_slice (map2 (k_mul p) xs ys)"
    using z by (auto simp: zero_slice_def list_all_iff dest: set_zip_leftD set_zip_rightD)
  have 2: "length ys = 1 \<Longrightarrow> zero_slice (map (\<lambda>a. k_mul p a (hd ys)) xs)"
  proof -
    assume "length ys = 1"
    then have "hd ys \<in> set ys" by (cases ys) auto
    then show ?thesis using z by (auto simp: zero_slice_def list_all_iff)
  qed
  have 3: "length xs = 1 \<Longrightarrow> zero_slice (map (k_mul p (hd xs)) ys)"
  proof -
    assume "length xs = 1"
    then have "hd xs \<in> set xs" by (cases xs) auto
    then show ?thesis using z by (auto simp: zero_slice_def list_all_iff)
  qed
  show ?thesis using 1 2 3 by (simp add: bc_pair_def zero_slice_def)
qed

subsection \<open>The result of rms_norm\<close>

lemma rstd_fields:
  "rows (torch_rsqrt (Tensor_add_scalar (Tensor_mean_keepdim (Tensor_pow x 2)) e)) =
     map (\<lambda>r. [k_rsqrt (dtype x) (k_add_scalar (dtype x) (k_mean (dtype x) (map (\<lambda>u. k_pow (dtype x) u 2) r)) e)]) (rows x)"
  "dtype (torch_rsqrt (Tensor_add_scalar (Tensor_mean_keepdim (Tensor_pow x 2)) e)) = dtype x"
  "device (torch_rsqrt (Tensor_add_scalar (Tensor_mean_keepdim (Tensor_pow x 2)) e)) = device x"
  "shape (torch_rsqrt (Tensor_add_scalar (Tensor_mean_keepdim (Tensor_pow x 2)) e)) =
     keepdim_shape (shape x)"
  by (simp_all add: torch_rsqrt_def Tensor_add_scalar_def Tensor_mean_keepdim_def Tensor_pow_def
      comp_def)

text \<open>Without a weight, \<^verbatim>\<open>rms_norm\<close> returns: every slice is normalised on its own.\<close>

lemma rms_norm_unscaled:
  "rms_norm x None e =
     Inr (x\<lparr>rows := map (normalise_slice (dtype x) e)
                      (expand (lead (shape x)) (lead (shape x)) (rows x))\<rparr>)"
proof -
  let ?r = "torch_rsqrt (Tensor_add_scalar (Tensor_mean_keepdim (Tensor_pow x 2)) e)"
  let ?X = "expand (lead (shape x)) (lead (shape x)) (rows x)"
  let ?c = "\<lambda>r. [k_rsqrt (dtype x) (k_add_scalar (dtype x) (k_mean (dtype x) (map (\<lambda>u. k_pow (dtype x) u 2) r)) e)]"
  have dev: "result_device x ?r = Some (device x)"
    by (simp add: result_device_def rstd_fields)
  have ty: "result_type x ?r = dtype x"
    by (simp add: result_type_def rstd_fields keepdim_Nil_iff promote_types_same)
  have sh: "broadcast_shapes (shape x) (shape ?r) = Some (shape x)"
    by (simp add: rstd_fields broadcast_shapes_keepdim)
  have ex: "expand (lead (shape ?r)) (lead (shape x)) (rows ?r) = map ?c ?X"
    by (simp add: rstd_fields lead_keepdim expand_map)
  have rs: "map2 (bc_pair (k_mul (dtype x))) ?X (map ?c ?X) =
            map (normalise_slice (dtype x) e) ?X"
    unfolding map2_map_right by (simp add: bc_pair_single normalise_slice_def)
  have "Tensor_mul x ?r =
        Inr \<lparr>dtype = dtype x, device = device x, shape = shape x,
             rows = map (normalise_slice (dtype x) e) ?X\<rparr>"
    by (simp add: Tensor_mul_def dev ty sh ex rs)
  then show ?thesis by (simp add: rms_norm_def)
qed

lemma rms_norm_scaled:
  "rms_norm x (Some s) e =
     Tensor_mul (x\<lparr>rows := map (normalise_slice (dtype x) e)
                              (expand (lead (shape x)) (lead (shape x)) (rows x))\<rparr>) s"
proof -
  have "Tensor_mul x (torch_rsqrt (Tensor_add_scalar (Tensor_mean_keepdim (Tensor_pow x 2)) e)) =
        Inr (x\<lparr>rows := map (normalise_slice (dtype x) e)
                      (expand (lead (shape x)) (lead (shape x)) (rows x))\<rparr>)"
    using rms_norm_unscaled [of x e] by (simp add: rms_norm_def split: sum.splits)
  then show ?thesis by (simp add: rms_norm_def)
qed

lemma wf_expand_rows: "wf_tensor x \<Longrightarrow> expand (lead (shape x)) (lead (shape x)) (rows x) = rows x"
  by (simp add: wf_tensor_def expand_same)


text \<open>With a weight that fits, \<^verbatim>\<open>rms_norm\<close> returns a tensor of the shape of \<open>x\<close>.\<close>

lemma rms_norm_fits:
  assumes "weight_fits x w"
  shows "\<exists>y. rms_norm x w e = Inr y \<and> shape y = shape x"
proof (cases w)
  case None
  then show ?thesis by (simp add: rms_norm_unscaled)
next
  case (Some s)
  let ?o = "x\<lparr>rows := map (normalise_slice (dtype x) e)
                      (expand (lead (shape x)) (lead (shape x)) (rows x))\<rparr>"
  from assms Some obtain n where n: "shape s = [n]"
    by (cases "shape s") (auto simp: weight_fits_def)
  have dev: "result_device ?o s = Some (device x)"
    using assms Some by (simp add: result_device_def weight_fits_def)
  have "broadcast_shapes (shape x) [n] = Some (shape x)"
    using assms Some n by (intro broadcast_shapes_vector) (simp_all add: weight_fits_def)
  then show ?thesis using Some n dev by (simp add: rms_norm_scaled Tensor_mul_def)
qed

subsection \<open>Slices of zeros\<close>

lemma zero_slice_replicate: "zero_slice r \<Longrightarrow> r = replicate (length r) (Fin 0)"
  by (induction r) (auto simp: zero_slice_def)

lemma normalise_zeros:
  assumes "0 < e" "k_add_scalar d (Fin 0) e \<noteq> Fin 0" "zero_slice r"
  shows "zero_slice (normalise_slice d e r)"
proof (cases "r = []")
  case True
  then show ?thesis by (simp add: normalise_slice_def zero_slice_def)
next
  case False
  let ?n = "length r"
  have r: "r = replicate ?n (Fin 0)" by (rule zero_slice_replicate [OF assms(3)])
  have n: "0 < ?n" using False by simp
  have "map (\<lambda>u. k_pow d u 2) r = replicate ?n (Fin 0)"
    by (subst r) (simp add: store_zero)
  then have m: "k_mean d (map (\<lambda>u. k_pow d u 2) r) = Fin 0"
    using n by (simp add: k_mean_zeros)
  from rsqrt_of_eps_finite [OF assms(1,2)] obtain s where
    s: "k_rsqrt d (k_add_scalar d (Fin 0) e) = Fin s" by blast
  have "normalise_slice d e r = map (\<lambda>v. k_mul d v (Fin s)) r"
    by (simp add: normalise_slice_def m s)
  also have "\<dots> = replicate ?n (Fin 0)"
    by (subst r) (simp add: store_zero)
  finally show ?thesis by (simp add: zero_slice_def list_all_iff)
qed

subsection \<open>The layers\<close>

lemma RMSNorm_forward_dtype: "RMSNorm_forward self x = Inr y \<Longrightarrow> dtype y = dtype x"
  by (auto simp: RMSNorm_forward_def dtype_Tensor_to split: sum.splits)

lemma LPRMSNorm_forward_dtype: "LPRMSNorm_forward ctx self x = Inr y \<Longrightarrow> dtype y = dtype x"
  by (auto simp: LPRMSNorm_forward_def dtype_Tensor_to split: sum.splits)

lemma RMSNorm_forward_returns:
  assumes "weight_fits x (weight self)"
  shows "\<exists>y. RMSNorm_forward self x = Inr y"
proof -
  have "weight_fits (Tensor_float x) (weight self)"
    using assms by (simp add: Tensor_float_def weight_fits_Tensor_to)
  from rms_norm_fits [OF this, of "eps self"] show ?thesis
    by (auto simp: RMSNorm_forward_def)
qed

lemma cast_supported:
  assumes "device_supported ctx x"
  shows "\<exists>d. cast_if_autocast_enabled ctx x = Inr (Tensor_to d x)"
proof (cases "is_autocast_enabled ctx")
  case True
  with assms show ?thesis by (auto simp: device_supported_def cast_if_autocast_enabled_def)
next
  case False
  have "Tensor_to (dtype x) x = x" by (simp add: Tensor_to_def)
  with False show ?thesis by (metis cast_if_autocast_enabled_def)
qed

lemma LPRMSNorm_forward_returns:
  assumes fits: "weight_fits x (weight self)" and sup: "device_supported ctx x"
  shows "\<exists>y. LPRMSNorm_forward ctx self x = Inr y"
proof -
  from cast_supported [OF sup] obtain d where dx: "cast_if_autocast_enabled ctx x = Inr (Tensor_to d x)"
    by blast
  have auto_ok: "torch_autocast_off ctx (dev_type (device x)) = Inr ()"
    using sup by (simp add: device_supported_def torch_autocast_off_def)
  show ?thesis
  proof (cases "weight self")
    case None
    then show ?thesis
      using dx auto_ok by (simp add: LPRMSNorm_forward_def cast_parameter_def rms_norm_unscaled)
  next
    case (Some s)
    with fits have "device s = device x" by (simp add: weight_fits_def)
    then have "device_supported ctx s" using sup by (simp add: device_supported_def)
    from cast_supported [OF this] obtain d' where
      ds: "cast_if_autocast_enabled ctx s = Inr (Tensor_to d' s)" by blast
    have "weight_fits (Tensor_to d x) (Some (Tensor_to d' s))"
      using fits Some by (simp add: weight_fits_Tensor_to weight_fits_cast_weight)
    from rms_norm_fits [OF this, of "eps self"] show ?thesis
      using Some dx ds auto_ok by (auto simp: LPRMSNorm_forward_def cast_parameter_def)
  qed
qed

lemma length_expand_Nil: "length (expand [] dst xs) = prod_list dst * length xs"
  by (induction dst) (simp_all add: length_concat sum_list_replicate)

lemma nth_map2:
  "j < length (map2 f xs ys) \<Longrightarrow> map2 f xs ys ! j = f (xs ! j) (ys ! j)"
  by simp

text \<open>What a slice of zeros becomes under a finite weight.\<close>

lemma rms_norm_zero_rows:
  assumes wf: "wf_tensor x" and e: "0 < e" and ne: "k_add_scalar (dtype x) (Fin 0) e \<noteq> Fin 0"
    and fin: "finite_weight w" and y: "rms_norm x w e = Inr y"
    and j: "j < length (rows y)" and z: "zero_slice (source_slices x y ! j)"
  shows "zero_slice (rows y ! j)"
proof (cases w)
  case None
  with y have ry: "y = x\<lparr>rows := map (normalise_slice (dtype x) e) (rows x)\<rparr>"
    by (simp add: rms_norm_unscaled wf_expand_rows [OF wf])
  then have s: "source_slices x y = rows x"
    by (simp add: source_slices_def wf_expand_rows [OF wf])
  from ry j have "rows y ! j = normalise_slice (dtype x) e (rows x ! j)" by simp
  with z s show ?thesis by (simp add: normalise_zeros [OF e ne])
next
  case (Some s)
  let ?o = "x\<lparr>rows := map (normalise_slice (dtype x) e) (rows x)\<rparr>"
  let ?S = "expand (lead (shape x)) (lead (shape y)) (rows x)"
  let ?W = "expand (lead (shape s)) (lead (shape y)) (rows s)"
  let ?f = "bc_pair (k_mul (result_type ?o s))"
  from y Some have m: "Tensor_mul ?o s = Inr y"
    by (simp add: rms_norm_scaled wf_expand_rows [OF wf])
  from Tensor_mul_Inr(3) [OF m]
  have ry: "rows y = map2 ?f (map (normalise_slice (dtype x) e) ?S) ?W"
    by (simp add: expand_map)
  from j ry have jS: "j < length ?S" and jW: "j < length ?W" by simp_all
  from j ry have "rows y ! j = ?f (normalise_slice (dtype x) e (?S ! j)) (?W ! j)"
    using jS jW by simp
  moreover have "zero_slice (normalise_slice (dtype x) e (?S ! j))"
    using z by (simp add: source_slices_def normalise_zeros [OF e ne])
  moreover have "list_all is_fin (?W ! j)"
  proof -
    have "?W ! j \<in> set (rows s)" using jW set_expand [of "lead (shape s)" "lead (shape y)" "rows s"]
      by (meson nth_mem subsetD)
    then show ?thesis using fin Some by (simp add: finite_weight_def finite_tensor_def list_all_iff)
  qed
  ultimately show ?thesis by (simp add: zero_slice_bc_pair)
qed

text \<open>With a weight that fits, the slices of the result are those of \<open>x\<close>, one for one.\<close>

lemma rms_norm_fits_slices:
  assumes wf: "wf_tensor x" and fits: "weight_fits x w" and fin: "finite_weight w"
  shows "\<exists>y. rms_norm x w e = Inr y \<and> source_slices x y = rows x \<and>
           length (rows y) = length (rows x)"
proof (cases w)
  case None
  then show ?thesis
    by (simp add: rms_norm_unscaled wf_expand_rows [OF wf] source_slices_def)
next
  case (Some s)
  let ?o = "x\<lparr>rows := map (normalise_slice (dtype x) e) (rows x)\<rparr>"
  from rms_norm_fits [OF fits, of e] obtain y where
    y: "rms_norm x w e = Inr y" and sh: "shape y = shape x" by blast
  from y Some have m: "Tensor_mul ?o s = Inr y"
    by (simp add: rms_norm_scaled wf_expand_rows [OF wf])
  from fits Some obtain n where n: "shape s = [n]"
    by (cases "shape s") (auto simp: weight_fits_def)
  have ls: "length (rows s) = 1" using fin Some n by (simp add: finite_weight_def wf_tensor_def lead_def)
  have src: "source_slices x y = rows x"
    by (simp add: source_slices_def sh wf_expand_rows [OF wf])
  have lx: "length (rows x) = prod_list (lead (shape x))" using wf by (simp add: wf_tensor_def)
  from Tensor_mul_Inr(3) [OF m]
  have "length (rows y) = length (rows x)"
    by (simp add: sh n lead_def [of "[n]"] length_expand_Nil ls expand_map wf_expand_rows [OF wf]
        lx [symmetric])
  with y src show ?thesis by blast
qed

section \<open>The claims\<close>

subsection \<open>The precision cast\<close>

text \<open>
  Claim C4. The precision cast raises an error exactly when autocast is enabled and the
  device type of the tensor is neither \<^verbatim>\<open>cuda\<close> nor \<^verbatim>\<open>cpu\<close>, and the error is then the
  unsupported-device error (NotImplementedError); with autocast disabled it raises nothing,
  whatever the device type.
\<close>

theorem cast_raises_iff:
  "(cast_if_autocast_enabled ctx t = Inl e) =
     (e = NotImplementedError \<and> is_autocast_enabled ctx \<and>
      dev_type (device t) \<noteq> ''cuda'' \<and> dev_type (device t) \<noteq> ''cpu'') \<and>
   (\<not> is_autocast_enabled ctx \<longrightarrow> (\<exists>y. cast_if_autocast_enabled ctx t = Inr y))"
  by (cases e) (auto simp: cast_if_autocast_enabled_def)

theorem cast_raises_iff_witness:
  "cast_if_autocast_enabled autocast_on xla_x = Inl NotImplementedError \<and>
   \<not> is_autocast_enabled autocast_off \<and>
   (\<exists>y. cast_if_autocast_enabled autocast_off xla_x = Inr y)"
proof -
  have off: "\<not> is_autocast_enabled autocast_off"
    by (simp add: autocast_off_def)
  have on: "is_autocast_enabled autocast_on \<and> dev_type (device xla_x) \<noteq> ''cuda'' \<and>
      dev_type (device xla_x) \<noteq> ''cpu''"
    by (simp add: autocast_on_def xla_x_def xla0_def)
  from cast_raises_iff [of autocast_on xla_x NotImplementedError] on
  have 1: "cast_if_autocast_enabled autocast_on xla_x = Inl NotImplementedError"
    by blast
  from cast_raises_iff [of autocast_off xla_x NotImplementedError] off
  have 2: "\<exists>y. cast_if_autocast_enabled autocast_off xla_x = Inr y"
    by blast
  from 1 2 off show ?thesis by blast
qed

text \<open>
  Claim C5. With autocast disabled, the precision cast is the identity: it returns the
  tensor it was given, unchanged.
\<close>

theorem cast_identity_without_autocast:
  "\<not> is_autocast_enabled ctx \<Longrightarrow> cast_if_autocast_enabled ctx t = Inr t"
  by (simp add: cast_if_autocast_enabled_def)

theorem cast_identity_without_autocast_witness:
  "\<not> is_autocast_enabled autocast_off \<and>
   cast_if_autocast_enabled autocast_off half_x = Inr half_x"
proof -
  have off: "\<not> is_autocast_enabled autocast_off"
    by (simp add: autocast_off_def)
  from cast_identity_without_autocast [OF off, of half_x] off show ?thesis by blast
qed

lemma cast_dtype_when_enabled:
  "(is_autocast_enabled ctx \<and> dev_type (device t) = ''cuda'' \<longrightarrow>
      (\<exists>y. cast_if_autocast_enabled ctx t = Inr y \<and> dtype y = autocast_gpu_dtype ctx)) \<and>
   (is_autocast_enabled ctx \<and> dev_type (device t) = ''cpu'' \<longrightarrow>
      (\<exists>y. cast_if_autocast_enabled ctx t = Inr y \<and> dtype y = autocast_cpu_dtype ctx))"
  by (simp add: cast_if_autocast_enabled_def dtype_Tensor_to)


subsection \<open>rms_norm\<close>

lemma eps_tiny: "(1 / 10 ^ 50 :: real) \<le> 2 powr of_int (emin Float32 - prec Float32)"
proof -
  have "(2::real) powr of_int (emin Float32 - prec Float32) = 1 / 2 ^ 150"
    by (simp add: powr_minus_divide)
  then show ?thesis by simp
qed

lemma eps_default: "2 powr of_int (emin Float32 - prec Float32) < (1 / 10 ^ 5 :: real)"
proof -
  have "(2::real) powr of_int (emin Float32 - prec Float32) = 1 / 2 ^ 150"
    by (simp add: powr_minus_divide)
  then show ?thesis by simp
qed

text \<open>In float32 an \<open>eps\<close> above \<open>2 ^ - 150\<close>, added to zero, is not zero.\<close>

lemma eps_survives_float32:
  assumes "2 powr of_int (emin Float32 - prec Float32) < e"
  shows "k_add_scalar Float32 (Fin 0) e \<noteq> Fin 0"
proof -
  from rnd_positive [OF assms] show ?thesis
  proof
    assume "rnd Float32 e = PInf"
    then show ?thesis by (simp add: k_add_scalar_def)
  next
    assume "\<exists>v. rnd Float32 e = Fin v \<and> 2 powr of_int (emin Float32 - (prec Float32 - 1)) \<le> v"
    then obtain v where v: "rnd Float32 e = Fin v"
      "2 powr of_int (emin Float32 - (prec Float32 - 1)) \<le> v" by blast
    have "(2::real) powr of_int (emin Float32 - prec Float32) <
          2 powr of_int (emin Float32 - (prec Float32 - 1))"
      by (intro powr_less_mono) simp_all
    with v(2) have "2 powr of_int (emin Float32 - prec Float32) < v" by linarith
    from rnd_positive [OF this] have "rnd Float32 v \<noteq> Fin 0"
      using powr_gt_zero [of 2 "of_int (emin Float32 - (prec Float32 - 1))"] by auto
    then show ?thesis using v(1) by (simp add: k_add_scalar_def store_def)
  qed
qed




text \<open>
  Claim C7, as the code has it. Let \<open>eps\<close> be positive and not round to zero when it is
  added to zero in the dtype of \<open>x\<close> (it is brought into float32 first for float32 and for
  the 16-bit dtypes: in float32 every \<open>eps\<close> above \<open>2 ^ - 150\<close> will do, the default
  \<open>1e-05\<close> among them), and let the weight be absent or hold finite numbers. Then in
  whatever \<^verbatim>\<open>rms_norm\<close> returns, every slice that is computed from a slice of zeros of
  \<open>x\<close> is a slice of zeros: finite values, neither NaN nor an infinity. And \<^verbatim>\<open>rms_norm\<close>
  does return, slice for slice, when there is no weight or the weight fits \<open>x\<close>.
\<close>

theorem rms_norm_zero_slice:
  assumes "wf_tensor x" and "0 < e" and "k_add_scalar (dtype x) (Fin 0) e \<noteq> Fin 0"
    and "finite_weight w"
  shows "(\<forall>y. rms_norm x w e = Inr y \<longrightarrow>
            (\<forall>j<length (rows y). zero_slice (source_slices x y ! j) \<longrightarrow> zero_slice (rows y ! j))) \<and>
         (weight_fits x w \<longrightarrow>
            (\<exists>y. rms_norm x w e = Inr y \<and> source_slices x y = rows x \<and>
                 length (rows y) = length (rows x)))"
  using rms_norm_zero_rows [OF assms] rms_norm_fits_slices [OF assms(1) _ assms(4)] by blast

theorem rms_norm_zero_slice_witness:
  "wf_tensor mixed_x \<and> (0::real) < 1 / 10 ^ 5 \<and>
   k_add_scalar (dtype mixed_x) (Fin 0) (1 / 10 ^ 5) \<noteq> Fin 0 \<and>
   finite_weight (Some (torch_ones 2 Float32 cpu)) \<and>
   weight_fits mixed_x (Some (torch_ones 2 Float32 cpu)) \<and>
   zero_slice (rows mixed_x ! 0) \<and>
   (\<exists>y. rms_norm mixed_x (Some (torch_ones 2 Float32 cpu)) (1 / 10 ^ 5) = Inr y \<and>
        length (rows y) = 2 \<and> zero_slice (rows y ! 0))"
proof -
  have 1: "wf_tensor mixed_x" by (simp add: wf_tensor_def mixed_x_def lead_def width_def)
  have 2: "(0::real) < 1 / 10 ^ 5" by simp
  have d: "dtype mixed_x = Float32" by (simp add: mixed_x_def)
  have 3: "k_add_scalar (dtype mixed_x) (Fin 0) (1 / 10 ^ 5) \<noteq> Fin 0"
    unfolding d by (rule eps_survives_float32 [OF eps_default])
  have 4: "finite_weight (Some (torch_ones 2 Float32 cpu))"
    by (simp add: finite_weight_def finite_tensor_def wf_tensor_def torch_ones_def lead_def
        width_def list_all_iff)
  have 5: "weight_fits mixed_x (Some (torch_ones 2 Float32 cpu))"
    by (simp add: weight_fits_def mixed_x_def torch_ones_def)
  have 6: "zero_slice (rows mixed_x ! 0)" by (simp add: mixed_x_def zero_slice_def)
  have 7: "length (rows mixed_x) = 2" by (simp add: mixed_x_def)
  note t = rms_norm_zero_slice [OF 1 2 3 4]
  from t 5 obtain y where y: "rms_norm mixed_x (Some (torch_ones 2 Float32 cpu)) (1 / 10 ^ 5) = Inr y"
    "source_slices mixed_x y = rows mixed_x" "length (rows y) = length (rows mixed_x)"
    by blast
  from t y(1) have "\<forall>j<length (rows y). zero_slice (source_slices mixed_x y ! j) \<longrightarrow>
      zero_slice (rows y ! j)" by blast
  with y(2,3) 6 7 have "zero_slice (rows y ! 0)" by simp
  with y(1,3) 7 have "\<exists>y. rms_norm mixed_x (Some (torch_ones 2 Float32 cpu)) (1 / 10 ^ 5) = Inr y \<and>
        length (rows y) = 2 \<and> zero_slice (rows y ! 0)" by auto
  with 1 2 3 4 5 6 show ?thesis by blast
qed

text \<open>
  The claim as it was stated, for every \<open>eps > 0\<close> and every input, fails twice.
  \<open>1e-50\<close> is positive and rounds to zero in float32, so on a float32 slice of zeros the
  argument of \<^verbatim>\<open>rsqrt\<close> is zero, \<^verbatim>\<open>rsqrt\<close> returns an infinity, and zero times infinity
  is NaN. And with the default \<open>eps\<close>, a weight that holds an infinity turns the zero it
  meets into NaN.
\<close>

theorem rms_norm_eps_underflow_counterexample:
  "0 < (1 / 10 ^ 50 :: real) \<and>
   rms_norm zeros_x None (1 / 10 ^ 50) = Inr (zeros_x\<lparr>rows := [[NaN, NaN]]\<rparr>) \<and>
   map_sum id (\<lambda>y. rows y ! 0 ! 0) (rms_norm zeros_x (Some inf_weight) (1 / 10 ^ 5)) = Inr NaN"
proof -
  have u: "rnd Float32 (1 / 10 ^ 50) = Fin 0"
    by (rule rnd_underflow [OF _ eps_tiny]) simp
  have m: "k_mean Float32 [Fin 0, Fin 0] = Fin 0"
    by (simp add: k_mean_def store_zero)
  have wf: "wf_tensor zeros_x" by (simp add: wf_tensor_def zeros_x_def lead_def width_def)
  have n50: "normalise_slice Float32 (1 / 10 ^ 50) [Fin 0, Fin 0] = [NaN, NaN]"
    using u by (simp add: normalise_slice_def k_add_scalar_def store_zero m)
  have r: "rows zeros_x = [[Fin 0, Fin 0]]" "dtype zeros_x = Float32"
    by (simp_all add: zeros_x_def)
  have ex: "expand (lead (shape zeros_x)) (lead (shape zeros_x)) (rows zeros_x) = [[Fin 0, Fin 0]]"
    using wf_expand_rows [OF wf] r(1) by simp
  have a: "rms_norm zeros_x None (1 / 10 ^ 50) = Inr (zeros_x\<lparr>rows := [[NaN, NaN]]\<rparr>)"
    using n50 by (simp add: rms_norm_unscaled ex r(2))
  have d: "dtype zeros_x = Float32" by (simp add: zeros_x_def)
  have z: "zero_slice (normalise_slice Float32 (1 / 10 ^ 5) [Fin 0, Fin 0])"
    by (rule normalise_zeros [OF _ eps_survives_float32 [OF eps_default]])
       (simp_all add: zero_slice_def)
  then have n: "normalise_slice Float32 (1 / 10 ^ 5) [Fin 0, Fin 0] = [Fin 0, Fin 0]"
    using zero_slice_replicate [OF z] by (simp add: normalise_slice_def)
  have "rms_norm zeros_x (Some inf_weight) (1 / 10 ^ 5) =
        Tensor_mul (zeros_x\<lparr>rows := [[Fin 0, Fin 0]]\<rparr>) inf_weight"
    using n by (simp add: rms_norm_scaled ex r(2))
  also have "map_sum id (\<lambda>y. rows y ! 0 ! 0) \<dots> = Inr NaN"
    by (simp add: Tensor_mul_def result_device_def zeros_x_def inf_weight_def cpu_def
        broadcast_shapes_def broadcast_dim_def lead_def bc_pair_def)
  finally have b: "map_sum id (\<lambda>y. rows y ! 0 ! 0)
      (rms_norm zeros_x (Some inf_weight) (1 / 10 ^ 5)) = Inr NaN" .
  have p: "0 < (1 / 10 ^ 50 :: real)" by simp
  from p a b show ?thesis by blast
qed

subsection \<open>The layers\<close>

text \<open>
  Claim C3. For an input \<open>x\<close> of any floating dtype, the tensor that \<^verbatim>\<open>RMSNorm.forward\<close>
  returns and the tensor that \<^verbatim>\<open>LPRMSNorm.forward\<close> returns have the dtype of \<open>x\<close>.
  \<^verbatim>\<open>RMSNorm.forward\<close> returns a tensor whenever the weight fits \<open>x\<close>, and
  \<^verbatim>\<open>LPRMSNorm.forward\<close> whenever moreover the device of \<open>x\<close> is supported.
\<close>

theorem forward_keeps_dtype:
  "(\<forall>y. RMSNorm_forward self x = Inr y \<longrightarrow> dtype y = dtype x) \<and>
   (\<forall>y. LPRMSNorm_forward ctx self x = Inr y \<longrightarrow> dtype y = dtype x) \<and>
   (weight_fits x (weight self) \<longrightarrow> (\<exists>y. RMSNorm_forward self x = Inr y)) \<and>
   (weight_fits x (weight self) \<and> device_supported ctx x \<longrightarrow>
      (\<exists>y. LPRMSNorm_forward ctx self x = Inr y))"
  using RMSNorm_forward_dtype LPRMSNorm_forward_dtype RMSNorm_forward_returns
    LPRMSNorm_forward_returns by blast

theorem forward_keeps_dtype_witness:
  "weight_fits bf16_x (weight bf16_module) \<and>
   device_supported autocast_on bf16_x \<and>
   (\<exists>y. RMSNorm_forward bf16_module bf16_x = Inr y \<and> dtype y = BFloat16) \<and>
   (\<exists>y. LPRMSNorm_forward autocast_on bf16_module bf16_x = Inr y \<and> dtype y = BFloat16)"
proof -
  have 1: "weight_fits bf16_x (weight bf16_module)"
    by (simp add: weight_fits_def bf16_x_def bf16_module_def torch_ones_def)
  have 2: "device_supported autocast_on bf16_x"
    by (simp add: device_supported_def autocast_on_def bf16_x_def cuda0_def)
  have 3: "dtype bf16_x = BFloat16" by (simp add: bf16_x_def)
  note t = forward_keeps_dtype [of bf16_module bf16_x autocast_on]
  from t 1 3 have a: "\<exists>y. RMSNorm_forward bf16_module bf16_x = Inr y \<and> dtype y = BFloat16"
    by metis
  from t 1 2 3 have b: "\<exists>y. LPRMSNorm_forward autocast_on bf16_module bf16_x = Inr y \<and> dtype y = BFloat16"
    by metis
  from 1 2 a b show ?thesis by blast
qed

text \<open>
  Claim C10, as the code has it. On a float32 input, with autocast disabled,
  \<^verbatim>\<open>LPRMSNorm.forward\<close> has the outcome of \<^verbatim>\<open>RMSNorm.forward\<close> of a layer in the same
  state (the same tensor, or the same error) on every device type for which
  \<^verbatim>\<open>torch.autocast\<close> can be entered; on any other device type it raises the RuntimeError
  of \<^verbatim>\<open>torch.autocast\<close>, whatever \<^verbatim>\<open>RMSNorm.forward\<close> does. The two constructors build
  the same state from the same arguments.
\<close>

theorem LPRMSNorm_equals_RMSNorm:
  assumes "dtype x = Float32" and "\<not> is_autocast_enabled ctx"
  shows "LPRMSNorm_forward ctx self x =
           (if dev_type (device x) \<in> set (autocast_device_types ctx)
            then RMSNorm_forward self x else Inl RuntimeError) \<and>
         LPRMSNorm_init dd dv n e w dt dev = RMSNorm_init dd dv n e w dt dev"
proof -
  have 1: "Tensor_float x = x" using assms(1) by (simp add: Tensor_float_def Tensor_to_def)
  have 2: "cast_parameter ctx (weight self) = Inr (weight self)"
    using assms(2) by (simp add: cast_parameter_def cast_if_autocast_enabled_def split: option.splits)
  show ?thesis
    using assms(2)
    by (simp add: LPRMSNorm_forward_def RMSNorm_forward_def 1 2 cast_if_autocast_enabled_def
        torch_autocast_off_def LPRMSNorm_init_def)
qed

theorem LPRMSNorm_equals_RMSNorm_witness:
  "dtype (scenario_x cpu) = Float32 \<and>
   \<not> is_autocast_enabled autocast_off \<and>
   dev_type (device (scenario_x cpu)) \<in> set (autocast_device_types autocast_off) \<and>
   LPRMSNorm_forward autocast_off ones4_module (scenario_x cpu) =
     RMSNorm_forward ones4_module (scenario_x cpu) \<and>
   LPRMSNorm_init Float32 cpu 4 (1 / 10 ^ 5) True None None = ones4_module \<and>
   (\<exists>y. RMSNorm_forward ones4_module (scenario_x cpu) = Inr y)"
proof -
  have 1: "dtype (scenario_x cpu) = Float32" by (simp add: scenario_x_def)
  have 2: "\<not> is_autocast_enabled autocast_off" by (simp add: autocast_off_def)
  have 3: "dev_type (device (scenario_x cpu)) \<in> set (autocast_device_types autocast_off)"
    by (simp add: scenario_x_def cpu_def autocast_off_def)
  have 4: "weight_fits (scenario_x cpu) (weight ones4_module)"
    by (simp add: weight_fits_def scenario_x_def ones4_module_def RMSNorm_init_def torch_ones_def)
  from LPRMSNorm_equals_RMSNorm [OF 1 2, of ones4_module Float32 cpu 4 "1 / 10 ^ 5" True None None] 3
  have 5: "LPRMSNorm_forward autocast_off ones4_module (scenario_x cpu) =
       RMSNorm_forward ones4_module (scenario_x cpu)"
    and 6: "LPRMSNorm_init Float32 cpu 4 (1 / 10 ^ 5) True None None = ones4_module"
    by (simp_all add: ones4_module_def)
  from 1 2 3 5 6 RMSNorm_forward_returns [OF 4] show ?thesis by blast
qed

text \<open>
  The claim as it was stated, for every float32 input, fails: on a float32 tensor on the
  \<^verbatim>\<open>meta\<close> device, with autocast disabled, \<^verbatim>\<open>RMSNorm.forward\<close> returns a tensor and
  \<^verbatim>\<open>LPRMSNorm.forward\<close> raises, because \<^verbatim>\<open>torch.autocast\<close> cannot be entered for that
  device type.
\<close>

theorem LPRMSNorm_meta_counterexample:
  "dtype meta_x = Float32 \<and>
   \<not> is_autocast_enabled autocast_off \<and>
   LPRMSNorm_forward autocast_off meta_module meta_x = Inl RuntimeError \<and>
   \<not> isl (RMSNorm_forward meta_module meta_x)"
proof -
  have 1: "dtype meta_x = Float32" by (simp add: meta_x_def)
  have 2: "\<not> is_autocast_enabled autocast_off" by (simp add: autocast_off_def)
  have 3: "LPRMSNorm_forward autocast_off meta_module meta_x = Inl RuntimeError"
    by (simp add: LPRMSNorm_forward_def cast_if_autocast_enabled_def cast_parameter_def
        torch_autocast_off_def autocast_off_def meta_module_def RMSNorm_init_def meta_x_def meta0_def)
  have "weight_fits meta_x (weight meta_module)"
    by (simp add: weight_fits_def meta_x_def meta_module_def RMSNorm_init_def torch_ones_def)
  from RMSNorm_forward_returns [OF this] have 4: "\<not> isl (RMSNorm_forward meta_module meta_x)"
    by auto
  from 1 2 3 4 show ?thesis by blast
qed

text \<open>
  Claim C8. \<^verbatim>\<open>LPLayerNorm.forward\<close> passes the input, the weight and the bias each through
  the precision cast, runs \<^verbatim>\<open>layer_norm\<close> on the three results with autocast off, and
  returns what \<^verbatim>\<open>layer_norm\<close> returns, without a cast back. With a \<^verbatim>\<open>layer_norm\<close> that
  (autocast off) answers in the dtype of its input, the dtype of the output is that of the
  downcast input: the autocast dtype of the device when autocast is enabled, not the dtype
  of the original input.
\<close>

theorem LPLayerNorm_forward_result:
  assumes "cast_if_autocast_enabled ctx x = Inr dx"
    and "cast_parameter ctx (ln_weight self) = Inr dw"
    and "cast_parameter ctx (ln_bias self) = Inr db"
    and "dev_type (device x) \<in> set (autocast_device_types ctx)"
    and "\<forall>t s w b e y. layer_norm False t s w b e = Inr y \<longrightarrow> dtype y = dtype t"
  shows "LPLayerNorm_forward layer_norm ctx self x =
           layer_norm False dx (normalized_shape self) dw db (ln_eps self) \<and>
         (\<forall>y. LPLayerNorm_forward layer_norm ctx self x = Inr y \<longrightarrow> dtype y = dtype dx) \<and>
         dtype dx =
           (if is_autocast_enabled ctx
            then (if dev_type (device x) = ''cuda'' then autocast_gpu_dtype ctx
                  else autocast_cpu_dtype ctx)
            else dtype x)"
proof -
  have 1: "LPLayerNorm_forward layer_norm ctx self x =
           layer_norm False dx (normalized_shape self) dw db (ln_eps self)"
    using assms(1-4) by (simp add: LPLayerNorm_forward_def torch_autocast_off_def)
  have 2: "\<forall>y. LPLayerNorm_forward layer_norm ctx self x = Inr y \<longrightarrow> dtype y = dtype dx"
    unfolding 1 using assms(5) by blast
  have 3: "dtype dx =
           (if is_autocast_enabled ctx
            then (if dev_type (device x) = ''cuda'' then autocast_gpu_dtype ctx
                  else autocast_cpu_dtype ctx)
            else dtype x)"
    using assms(1) by (auto simp: cast_if_autocast_enabled_def dtype_Tensor_to split: if_splits)
  from 1 2 3 show ?thesis by blast
qed

theorem LPLayerNorm_forward_result_witness:
  "cast_if_autocast_enabled autocast_on (scenario_x cuda0) = Inr (Tensor_to Float16 (scenario_x cuda0)) \<and>
   cast_parameter autocast_on (ln_weight ln_module) = Inr (Some (Tensor_to Float16 (torch_ones 4 Float32 cuda0))) \<and>
   cast_parameter autocast_on (ln_bias ln_module) = Inr None \<and>
   dev_type (device (scenario_x cuda0)) \<in> set (autocast_device_types autocast_on) \<and>
   LPLayerNorm_forward dtype_only_layer_norm autocast_on ln_module (scenario_x cuda0) =
     dtype_only_layer_norm False (Tensor_to Float16 (scenario_x cuda0)) [4]
       (Some (Tensor_to Float16 (torch_ones 4 Float32 cuda0))) None (1 / 10 ^ 5) \<and>
   map_sum id dtype (LPLayerNorm_forward dtype_only_layer_norm autocast_on ln_module (scenario_x cuda0)) =
     Inr Float16 \<and>
   dtype (scenario_x cuda0) = Float32"
proof -
  have 1: "cast_if_autocast_enabled autocast_on (scenario_x cuda0) =
      Inr (Tensor_to Float16 (scenario_x cuda0))"
    by (simp add: cast_if_autocast_enabled_def autocast_on_def scenario_x_def cuda0_def)
  have 2: "cast_parameter autocast_on (ln_weight ln_module) =
      Inr (Some (Tensor_to Float16 (torch_ones 4 Float32 cuda0)))"
    by (simp add: cast_parameter_def cast_if_autocast_enabled_def autocast_on_def ln_module_def
        torch_ones_def cuda0_def)
  have 3: "cast_parameter autocast_on (ln_bias ln_module) = Inr None"
    by (simp add: cast_parameter_def ln_module_def)
  have 4: "dev_type (device (scenario_x cuda0)) \<in> set (autocast_device_types autocast_on)"
    by (simp add: scenario_x_def cuda0_def autocast_on_def)
  have 5: "\<forall>t s w b e y. dtype_only_layer_norm False t s w b e = Inr y \<longrightarrow> dtype y = dtype t"
    by (simp add: dtype_only_layer_norm_def)
  have 6: "normalized_shape ln_module = [4]" "ln_eps ln_module = 1 / 10 ^ 5"
    by (simp_all add: ln_module_def)
  have 7: "dtype (scenario_x cuda0) = Float32" by (simp add: scenario_x_def)
  from LPLayerNorm_forward_result [where layer_norm = dtype_only_layer_norm, OF 1 2 3 4 5]
  have 8: "LPLayerNorm_forward dtype_only_layer_norm autocast_on ln_module (scenario_x cuda0) =
     dtype_only_layer_norm False (Tensor_to Float16 (scenario_x cuda0)) [4]
       (Some (Tensor_to Float16 (torch_ones 4 Float32 cuda0))) None (1 / 10 ^ 5)"
    unfolding 6 by blast
  have 9: "map_sum id dtype (LPLayerNorm_forward dtype_only_layer_norm autocast_on ln_module (scenario_x cuda0)) =
     Inr Float16"
    unfolding 8 by (simp add: dtype_only_layer_norm_def dtype_Tensor_to)
  from 1 2 3 4 7 8 9 show ?thesis by blast
qed

subsection \<open>The registry\<close>



end
